theory Spec2Isabelle
  imports Main "HOL-Library.Sublist" "HOL-Library.AList"
begin

section \<open>Python values and built-ins used by the two provisioning scripts\<close>

text \<open>
  Both scripts (\<^verbatim>\<open>create_databricks_agent_with_pat.py\<close> and
  \<^verbatim>\<open>create_databricks_agent_with_managed_identity.py\<close>) handle JSON documents:
  the OpenAPI description read with \<^verbatim>\<open>json.load\<close>, the body of an HTTP response,
  the payloads they send and the record they print. A document is a tree; a Python
  \<^verbatim>\<open>dict\<close> keeps its insertion order, so an object is an association list.
  A float is kept as an opaque mantissa and exponent: the scripts never compute with one.
\<close>

datatype json =
    JNull
  | JBool bool
  | JInt int
  | JFloat int int
  | JStr string
  | JArr "json list"
  | JObj "(string \<times> json) list"

text \<open>
  Exceptions are values. \<open>ExternalError\<close> stands for an exception raised inside an
  external collaborator (the identity provider, the HTTP transport, the agent platform's
  client); the scripts catch none of them inside the functions modelled here.
  \<open>SystemError\<close> is the answer of the object store below to an address it does not
  hold, which no Python program can produce.
\<close>

datatype pyerr =
    ValueError string
  | RuntimeError string
  | FileNotFoundError string
  | TypeError
  | KeyError
  | AttributeError
  | IndexError
  | JSONDecodeError
  | SystemError
  | ExternalError string

text \<open>Python truthiness (\<^verbatim>\<open>if x:\<close>, \<^verbatim>\<open>if not x:\<close>) of a JSON value.\<close>

fun truthy :: "json \<Rightarrow> bool" where
  "truthy JNull = False"
| "truthy (JBool b) = b"
| "truthy (JInt i) = (i \<noteq> 0)"
| "truthy (JFloat m e) = (m \<noteq> 0)"
| "truthy (JStr s) = (s \<noteq> [])"
| "truthy (JArr xs) = (xs \<noteq> [])"
| "truthy (JObj kvs) = (kvs \<noteq> [])"

text \<open>
  \<^verbatim>\<open>str.strip()\<close> removes leading and trailing characters for which
  \<^verbatim>\<open>str.isspace()\<close> holds. A \<open>char\<close> is a code point below 256; among those
  Python's whitespace is 9 to 13, 28 to 32, 133 and 160.
\<close>

definition py_isspace :: "char \<Rightarrow> bool" where
  "py_isspace c =
     (let n = (of_char c :: nat)
      in (9 \<le> n \<and> n \<le> 13) \<or> (28 \<le> n \<and> n \<le> 32) \<or> n = 133 \<or> n = 160)"

definition py_strip :: "string \<Rightarrow> string" where
  "py_strip s = rev (dropWhile py_isspace (rev (dropWhile py_isspace s)))"

text \<open>\<^verbatim>\<open>str(n)\<close> of an integer, as an f-string formats a status code.\<close>

definition digit_char :: "nat \<Rightarrow> char" where
  "digit_char d = ''0123456789'' ! d"

function str_nat :: "nat \<Rightarrow> string" where
  "str_nat n = (if n < 10 then [digit_char n] else str_nat (n div 10) @ [digit_char (n mod 10)])"
  by pat_completeness auto
termination
  by (relation "measure (\<lambda>n. n)") auto

declare str_nat.simps [simp del]

definition str_int :: "int \<Rightarrow> string" where
  "str_int i = (if i < 0 then CHR ''-'' # str_nat (nat (- i)) else str_nat (nat i))"

text \<open>
  An object of a type the scripts do not fix (the value found under \<^verbatim>\<open>token_value\<close>
  in a response) is formatted by an f-string with \<^verbatim>\<open>str\<close>: a string is itself,
  anything else goes through Python's own formatter, a parameter \<open>fmt\<close> of the model.
\<close>

fun py_format :: "(json \<Rightarrow> string) \<Rightarrow> json \<Rightarrow> string" where
  "py_format fmt (JStr s) = s"
| "py_format fmt v = fmt v"

section \<open>The world outside the scripts\<close>

text \<open>Addresses and resource names are plain strings to the scripts.\<close>

type_synonym url = string
type_synonym resource_name = string

text \<open>An HTTP response as \<^verbatim>\<open>requests\<close> presents it: status code, body text, and the
  body parsed by \<^verbatim>\<open>response.json()\<close> (\<open>None\<close> when the text is not JSON).\<close>

record response =
  status_code :: int
  body_text :: string
  body_json :: "json option"

datatype spec_file = Missing | Malformed | Document json

text \<open>The auth binding of a tool: the managed-identity descriptor with its audience, or
  the reference to a connection resource.\<close>

datatype auth_details = ManagedAuth string | ConnectionAuth string

record tool =
  tool_name :: string
  tool_description :: string
  tool_spec :: json
  tool_auth :: auth_details

text \<open>An agent as the platform's client presents it (\<^verbatim>\<open>agent.id\<close>,
  \<^verbatim>\<open>agent.name\<close>, ...). The name and the texts are optional on the platform.\<close>

record agent =
  ag_id :: string
  ag_name :: "string option"
  ag_description :: "string option"
  ag_instructions :: "string option"
  ag_model :: string
  ag_tools :: "tool list"

text \<open>The keyword arguments of one \<^verbatim>\<open>create_agent\<close> or \<^verbatim>\<open>update_agent\<close> call:
  \<open>None\<close> is an argument the call does not pass.\<close>

record agent_args =
  arg_name :: "string option"
  arg_description :: "string option"
  arg_instructions :: "string option"
  arg_model :: "string option"
  arg_tools :: "tool list option"

text \<open>Every call that leaves the process, and the line written to standard output, in the
  order the run makes them. Logging goes to the diagnostic channel and is left out.\<close>

datatype event =
    GetToken string
  | HttpPost string "(string \<times> string) list" json
  | HttpPut string "(string \<times> string) list" json
  | ReadSpecFile
  | ListAgents
  | UpdateAgent string agent_args
  | CreateAgent agent_args
  | PrintJson json

text \<open>
  What the collaborators answer during one run. Each remote call is made at most once per
  run, so its outcome is one field: \<open>Inl\<close> when the call raises, \<open>Inr\<close> its result.
  \<open>spec_path\<close> is the path of \<^verbatim>\<open>azure_databricks_openapi_spec.json\<close> beside the
  script, \<open>py_repr\<close> is Python's formatter for non-string objects.
\<close>

record env =
  databricks_token_outcome :: "pyerr + string"
  management_token_outcome :: "pyerr + string"
  token_create_outcome :: "pyerr + response"
  connection_put_outcome :: "pyerr + response"
  spec_path :: string
  spec_file_content :: spec_file
  list_agents_fault :: "pyerr option"
  update_agent_fault :: "pyerr option"
  create_agent_fault :: "pyerr option"
  py_repr :: "json \<Rightarrow> string"

section \<open>Mode B: the personal-access-token script\<close>

subsection \<open>create_ai_foundry_connection\<close>

definition connection_resource_id :: "string \<Rightarrow> string \<Rightarrow> string \<Rightarrow> string \<Rightarrow> string \<Rightarrow> string" where
  "connection_resource_id subscription_id resource_group account_name project_name connection_name =
     ''/subscriptions/'' @ subscription_id @ ''/resourceGroups/'' @ resource_group @
     ''/providers/Microsoft.CognitiveServices/accounts/'' @ account_name @
     ''/projects/'' @ project_name @ ''/connections/'' @ connection_name"

definition connection_payload :: "string \<Rightarrow> json" where
  "connection_payload bearer =
     JObj [(''properties'', JObj [
       (''category'', JStr ''CustomKeys''),
       (''authType'', JStr ''CustomKeys''),
       (''isSharedToAll'', JBool False),
       (''target'', JStr ''https://placeholder.example.com''),
       (''metadata'', JObj [(''ApiType'', JStr ''Databricks''), (''ResourceId'', JStr ''databricks-api'')]),
       (''credentials'', JObj [(''keys'', JObj [(''Authorization'', JStr bearer)])])])]"

definition create_ai_foundry_connection ::
  "env \<Rightarrow> string \<Rightarrow> json \<Rightarrow> string \<Rightarrow> string \<Rightarrow> string \<Rightarrow> string \<Rightarrow> (pyerr + string) \<times> event list" where
  "create_ai_foundry_connection e connection_name databricks_pat subscription_id resource_group
       account_name project_name =
     (let ev1 = [GetToken ''https://management.azure.com/.default''] in
      case management_token_outcome e of
        Inl err \<Rightarrow> (Inl err, ev1)
      | Inr token \<Rightarrow>
         (let connection_id = connection_resource_id subscription_id resource_group account_name
                                project_name connection_name;
              url = ''https://management.azure.com'' @ connection_id @ ''?api-version='' @ ''2025-04-01-preview'';
              payload = connection_payload (''Bearer '' @ py_format (py_repr e) databricks_pat);
              headers = [(''Authorization'', ''Bearer '' @ token), (''Content-Type'', ''application/json'')];
              ev2 = ev1 @ [HttpPut url headers payload]
          in case connection_put_outcome e of
               Inl err \<Rightarrow> (Inl err, ev2)
             | Inr resp \<Rightarrow>
                 if status_code resp = 200 \<or> status_code resp = 201 then (Inr connection_id, ev2)
                 else (Inl (RuntimeError (''Failed to create connection: '' @ str_int (status_code resp)
                                            @ '' - '' @ body_text resp)), ev2)))"

subsection \<open>create_databricks_pat\<close>

text \<open>
  Lines 55 to 113. The identity provider is asked for a token for the workspace's
  application id, the token endpoint is called once, and the response is read:
  a status other than 200 raises \<^verbatim>\<open>RuntimeError\<close>; \<^verbatim>\<open>response.json()\<close>
  raises when the body is not JSON; \<^verbatim>\<open>.get\<close> exists on a dict only; a missing or
  falsy \<^verbatim>\<open>token_value\<close> raises \<^verbatim>\<open>RuntimeError\<close>; and
  \<^verbatim>\<open>pat_data.get("token_info", {}).get("token_id")\<close> raises when
  \<^verbatim>\<open>token_info\<close> is present and not a dict.
\<close>

definition create_databricks_pat ::
  "env \<Rightarrow> string \<Rightarrow> string \<Rightarrow> int \<Rightarrow> (pyerr + json) \<times> event list" where
  "create_databricks_pat e databricks_workspace_url comment lifetime_days =
     (let ev1 = [GetToken ''2ff814a6-3304-4ab8-85cb-cd0e6f879c1d/.default''] in
      case databricks_token_outcome e of
        Inl err \<Rightarrow> (Inl err, ev1)
      | Inr token \<Rightarrow>
         (let url = databricks_workspace_url @ ''/api/2.0/token/create'';
              headers = [(''Authorization'', ''Bearer '' @ token), (''Content-Type'', ''application/json'')];
              lifetime_seconds = lifetime_days * 24 * 60 * 60;
              payload = JObj [(''comment'', JStr comment), (''lifetime_seconds'', JInt lifetime_seconds)];
              ev2 = ev1 @ [HttpPost url headers payload]
          in case token_create_outcome e of
               Inl err \<Rightarrow> (Inl err, ev2)
             | Inr resp \<Rightarrow>
                 if status_code resp \<noteq> 200 then
                   (Inl (RuntimeError (''Failed to create PAT: '' @ str_int (status_code resp)
                                         @ '' - '' @ body_text resp)), ev2)
                 else
                   (case body_json resp of
                      None \<Rightarrow> (Inl JSONDecodeError, ev2)
                    | Some (JObj pat_data) \<Rightarrow>
                        (let pat_token = (case map_of pat_data ''token_value'' of None \<Rightarrow> JNull | Some v \<Rightarrow> v) in
                         if \<not> truthy pat_token then
                           (Inl (RuntimeError (''PAT token not found in response: ''
                                                 @ py_repr e (JObj pat_data))), ev2)
                         else
                           (case map_of pat_data ''token_info'' of
                              None \<Rightarrow> (Inr pat_token, ev2)
                            | Some (JObj token_info) \<Rightarrow> (Inr pat_token, ev2)
                            | Some _ \<Rightarrow> (Inl AttributeError, ev2)))
                    | Some _ \<Rightarrow> (Inl AttributeError, ev2))))"

subsection \<open>load_databricks_openapi_spec\<close>

definition load_databricks_openapi_spec_pat :: "env \<Rightarrow> pyerr + json" where
  "load_databricks_openapi_spec_pat e =
     (case spec_file_content e of
        Missing \<Rightarrow> Inl (FileNotFoundError (''OpenAPI spec not found at '' @ spec_path e @ ''. ''
                     @ ''Ensure azure_databricks_openapi_spec.json is in this directory.''))
      | Malformed \<Rightarrow> Inl JSONDecodeError
      | Document d \<Rightarrow> Inr d)"

subsection \<open>customize_openapi_spec_for_workspace: the value it returns\<close>

text \<open>
  The value a customizer returns, as a function of the value of the document it is
  given. The pieces of Python the two customizers are made of, on document values:
  \<^verbatim>\<open>x.copy()\<close> exists on a dict and a list.
  \<^verbatim>\<open>k in x\<close> is key membership on a dict, element membership on a list, the
  substring test on a string, and a \<^verbatim>\<open>TypeError\<close> on anything else.
  \<^verbatim>\<open>x[k]\<close> with a string \<open>k\<close> is defined on a dict only.
  \<^verbatim>\<open>len(x)\<close> is defined on a list, a dict and a string only.
  \<^verbatim>\<open>x[0]\<close> is the first element of a list, the first character of a string, and a
  \<^verbatim>\<open>KeyError\<close> on a dict loaded from JSON, whose keys are all strings.
  \<^verbatim>\<open>x[k] = v\<close> with a string \<open>k\<close> is defined on a dict only; it replaces the
  value of a key the dict has and appends a new key.
\<close>

fun py_copy :: "json \<Rightarrow> pyerr + json" where
  "py_copy (JObj kvs) = Inr (JObj kvs)"
| "py_copy (JArr xs) = Inr (JArr xs)"
| "py_copy v = Inl AttributeError"

fun py_in :: "string \<Rightarrow> json \<Rightarrow> pyerr + bool" where
  "py_in k (JObj kvs) = Inr (map_of kvs k \<noteq> None)"
| "py_in k (JArr xs) = Inr (JStr k \<in> set xs)"
| "py_in k (JStr s) = Inr (sublist k s)"
| "py_in k v = Inl TypeError"

fun py_getitem :: "json \<Rightarrow> string \<Rightarrow> pyerr + json" where
  "py_getitem (JObj kvs) k = (case map_of kvs k of None \<Rightarrow> Inl KeyError | Some v \<Rightarrow> Inr v)"
| "py_getitem v k = Inl TypeError"

fun py_len :: "json \<Rightarrow> pyerr + nat" where
  "py_len (JArr xs) = Inr (length xs)"
| "py_len (JObj kvs) = Inr (length kvs)"
| "py_len (JStr s) = Inr (length s)"
| "py_len v = Inl TypeError"

fun py_first :: "json \<Rightarrow> pyerr + json" where
  "py_first (JArr (x # xs)) = Inr x"
| "py_first (JArr []) = Inl IndexError"
| "py_first (JStr (c # cs)) = Inr (JStr [c])"
| "py_first (JStr []) = Inl IndexError"
| "py_first (JObj kvs) = Inl KeyError"
| "py_first v = Inl TypeError"

fun py_setitem :: "json \<Rightarrow> string \<Rightarrow> json \<Rightarrow> pyerr + json" where
  "py_setitem (JObj kvs) k v = Inr (JObj (AList.update k v kvs))"
| "py_setitem d k v = Inl TypeError"

text \<open>A list whose first element is an object that an assignment changed: the value of
  the list afterwards. The first character of a string is a fresh object, and no
  assignment to it succeeds.\<close>

fun replace_first :: "json \<Rightarrow> json \<Rightarrow> json" where
  "replace_first (JArr (x # xs)) x' = JArr (x' # xs)"
| "replace_first v x' = v"

text \<open>\<^verbatim>\<open>customized_spec["servers"][0]["url"] = databricks_workspace_url\<close>, given the
  value \<open>servers\<close> of \<^verbatim>\<open>customized_spec["servers"]\<close>: the value of that object
  afterwards.\<close>

definition set_first_server_url :: "json \<Rightarrow> string \<Rightarrow> pyerr + json" where
  "set_first_server_url servers databricks_workspace_url =
     (case py_first servers of
        Inl err \<Rightarrow> Inl err
      | Inr first \<Rightarrow>
          (case py_setitem first ''url'' (JStr databricks_workspace_url) of
             Inl err \<Rightarrow> Inl err
           | Inr first' \<Rightarrow> Inr (replace_first servers first')))"

text \<open>Lines 223 to 225 of the PAT script, 64 to 66 of the managed-identity script. The
  assignment goes through \<^verbatim>\<open>customized_spec["servers"]\<close>, so the value of
  \<open>customized_spec\<close> afterwards has the changed list under \<open>servers\<close>.\<close>

definition update_server_url :: "json \<Rightarrow> string \<Rightarrow> pyerr + json" where
  "update_server_url customized_spec databricks_workspace_url =
     (case py_in ''servers'' customized_spec of
        Inl err \<Rightarrow> Inl err
      | Inr False \<Rightarrow> Inr customized_spec
      | Inr True \<Rightarrow>
          (case py_getitem customized_spec ''servers'' of
             Inl err \<Rightarrow> Inl err
           | Inr servers \<Rightarrow>
               (case py_len servers of
                  Inl err \<Rightarrow> Inl err
                | Inr n \<Rightarrow>
                    if n > 0 then
                      (case set_first_server_url servers databricks_workspace_url of
                         Inl err \<Rightarrow> Inl err
                       | Inr servers' \<Rightarrow> py_setitem customized_spec ''servers'' servers')
                    else Inr customized_spec)))"

definition bearer_scheme :: json where
  "bearer_scheme =
     JObj [(''bearerAuth'', JObj [(''type'', JStr ''apiKey''), (''name'', JStr ''Authorization''),
             (''in'', JStr ''header''), (''description'', JStr ''Databricks PAT: Bearer <token>'')])]"

definition bearer_requirement :: json where
  "bearer_requirement = JArr [JObj [(''bearerAuth'', JArr [])]]"

text \<open>Lines 227 to 239 of the PAT script.\<close>

definition update_security_schemes :: "json \<Rightarrow> pyerr + json" where
  "update_security_schemes customized_spec =
     (case py_in ''components'' customized_spec of
        Inl err \<Rightarrow> Inl err
      | Inr False \<Rightarrow> Inr customized_spec
      | Inr True \<Rightarrow>
          (case py_getitem customized_spec ''components'' of
             Inl err \<Rightarrow> Inl err
           | Inr components \<Rightarrow>
               (case py_in ''securitySchemes'' components of
                  Inl err \<Rightarrow> Inl err
                | Inr False \<Rightarrow> Inr customized_spec
                | Inr True \<Rightarrow>
                    (case py_setitem components ''securitySchemes'' bearer_scheme of
                       Inl err \<Rightarrow> Inl err
                     | Inr components' \<Rightarrow> py_setitem customized_spec ''components'' components'))))"

text \<open>The managed-identity script, lines 58 to 68.\<close>

definition customize_openapi_spec_for_workspace_mi :: "json \<Rightarrow> string \<Rightarrow> pyerr + json" where
  "customize_openapi_spec_for_workspace_mi spec databricks_workspace_url =
     (case py_copy spec of
        Inl err \<Rightarrow> Inl err
      | Inr customized_spec \<Rightarrow> update_server_url customized_spec databricks_workspace_url)"

text \<open>The PAT script, lines 213 to 244.\<close>

definition customize_openapi_spec_for_workspace_pat :: "json \<Rightarrow> string \<Rightarrow> pyerr + json" where
  "customize_openapi_spec_for_workspace_pat spec databricks_workspace_url =
     (case py_copy spec of
        Inl err \<Rightarrow> Inl err
      | Inr customized_spec \<Rightarrow>
          (case update_server_url customized_spec databricks_workspace_url of
             Inl err \<Rightarrow> Inl err
           | Inr s1 \<Rightarrow>
               (case update_security_schemes s1 of
                  Inl err \<Rightarrow> Inl err
                | Inr s2 \<Rightarrow> py_setitem s2 ''security'' bearer_requirement)))"

text \<open>The condition of lines 228 to 231, and whether a document declares a security
  scheme of a given name under \<^verbatim>\<open>components.securitySchemes\<close>.\<close>

definition has_security_schemes :: "json \<Rightarrow> bool" where
  "has_security_schemes d =
     (case py_in ''components'' d of
        Inr True \<Rightarrow>
          (case py_getitem d ''components'' of
             Inr components \<Rightarrow> py_in ''securitySchemes'' components = Inr True
           | Inl err \<Rightarrow> False)
      | _ \<Rightarrow> False)"

definition scheme_declared :: "string \<Rightarrow> json \<Rightarrow> bool" where
  "scheme_declared n d =
     (case d of
        JObj kvs \<Rightarrow>
          (case map_of kvs ''components'' of
             Some (JObj components) \<Rightarrow>
               (case map_of components ''securitySchemes'' of
                  Some (JObj schemes) \<Rightarrow> map_of schemes n \<noteq> None
                | _ \<Rightarrow> False)
           | _ \<Rightarrow> False)
      | _ \<Rightarrow> False)"

section \<open>The customizers on Python objects\<close>

text \<open>
  \<^verbatim>\<open>spec.copy()\<close> is a shallow copy: the new dict holds the same references as the
  old one, so an assignment through \<^verbatim>\<open>customized_spec["servers"][0]\<close> reaches an
  object the caller's document shares. To see that, objects live in a store: a dict or a
  list is a cell of the store, a value is an atom or the address of a cell. A fresh cell
  goes to the end of the store.
\<close>

type_synonym addr = nat

datatype pyval = VNone | VBool bool | VInt int | VFloat int int | VStr string | VRef addr

datatype pyobj = ODict "(string \<times> pyval) list" | OList "pyval list"

type_synonym store = "pyobj list"

definition deref :: "store \<Rightarrow> addr \<Rightarrow> pyobj option" where
  "deref h a = (if a < length h then Some (h ! a) else None)"

definition alloc :: "pyobj \<Rightarrow> store \<Rightarrow> pyval \<times> store" where
  "alloc ob h = (VRef (length h), h @ [ob])"

text \<open>\<open>build\<close> makes fresh objects for a document: what \<^verbatim>\<open>json.load\<close> returns, and
  what a dict or list display evaluates to.\<close>

fun build :: "json \<Rightarrow> store \<Rightarrow> pyval \<times> store"
  and build_list :: "json list \<Rightarrow> store \<Rightarrow> pyval list \<times> store"
  and build_items :: "(string \<times> json) list \<Rightarrow> store \<Rightarrow> (string \<times> pyval) list \<times> store"
where
  "build JNull h = (VNone, h)"
| "build (JBool b) h = (VBool b, h)"
| "build (JInt i) h = (VInt i, h)"
| "build (JFloat m e) h = (VFloat m e, h)"
| "build (JStr s) h = (VStr s, h)"
| "build (JArr xs) h = (case build_list xs h of (vs, h') \<Rightarrow> alloc (OList vs) h')"
| "build (JObj kvs) h = (case build_items kvs h of (items, h') \<Rightarrow> alloc (ODict items) h')"
| "build_list [] h = ([], h)"
| "build_list (x # xs) h =
     (case build x h of (v, h1) \<Rightarrow> case build_list xs h1 of (vs, h2) \<Rightarrow> (v # vs, h2))"
| "build_items [] h = ([], h)"
| "build_items ((k, x) # kvs) h =
     (case build x h of (v, h1) \<Rightarrow> case build_items kvs h1 of (items, h2) \<Rightarrow> ((k, v) # items, h2))"

text \<open>A value of the store denotes a document when reading it through the store gives
  that document. Two values are value-equal when they denote the same document.\<close>

fun denotes :: "store \<Rightarrow> pyval \<Rightarrow> json \<Rightarrow> bool"
  and denotes_list :: "store \<Rightarrow> pyval list \<Rightarrow> json list \<Rightarrow> bool"
  and denotes_items :: "store \<Rightarrow> (string \<times> pyval) list \<Rightarrow> (string \<times> json) list \<Rightarrow> bool"
where
  "denotes h v JNull = (v = VNone)"
| "denotes h v (JBool b) = (v = VBool b)"
| "denotes h v (JInt i) = (v = VInt i)"
| "denotes h v (JFloat m e) = (v = VFloat m e)"
| "denotes h v (JStr s) = (v = VStr s)"
| "denotes h v (JArr xs) =
     (case v of
        VRef a \<Rightarrow> (case deref h a of Some (OList vs) \<Rightarrow> denotes_list h vs xs | _ \<Rightarrow> False)
      | _ \<Rightarrow> False)"
| "denotes h v (JObj kvs) =
     (case v of
        VRef a \<Rightarrow> (case deref h a of Some (ODict items) \<Rightarrow> denotes_items h items kvs | _ \<Rightarrow> False)
      | _ \<Rightarrow> False)"
| "denotes_list h vs [] = (vs = [])"
| "denotes_list h vs (x # xs) =
     (case vs of [] \<Rightarrow> False | v # vs' \<Rightarrow> denotes h v x \<and> denotes_list h vs' xs)"
| "denotes_items h items [] = (items = [])"
| "denotes_items h items ((k, x) # kvs) =
     (case items of [] \<Rightarrow> False | (k', v) # items' \<Rightarrow> k' = k \<and> denotes h v x \<and> denotes_items h items' kvs)"

text \<open>The cells a value occupies when it is read as a given document, in reading order.
  A value is a tree when it denotes the document and no cell is reached twice: this is
  what \<open>build\<close> makes, and what a customizer returns when it was given one.\<close>

fun addrs :: "store \<Rightarrow> pyval \<Rightarrow> json \<Rightarrow> addr list"
  and addrs_list :: "store \<Rightarrow> pyval list \<Rightarrow> json list \<Rightarrow> addr list"
  and addrs_items :: "store \<Rightarrow> (string \<times> pyval) list \<Rightarrow> (string \<times> json) list \<Rightarrow> addr list"
where
  "addrs h v (JArr xs) =
     (case v of
        VRef a \<Rightarrow> a # (case deref h a of Some (OList vs) \<Rightarrow> addrs_list h vs xs | _ \<Rightarrow> [])
      | _ \<Rightarrow> [])"
| "addrs h v (JObj kvs) =
     (case v of
        VRef a \<Rightarrow> a # (case deref h a of Some (ODict items) \<Rightarrow> addrs_items h items kvs | _ \<Rightarrow> [])
      | _ \<Rightarrow> [])"
| "addrs h v JNull = []"
| "addrs h v (JBool b) = []"
| "addrs h v (JInt i) = []"
| "addrs h v (JFloat m e) = []"
| "addrs h v (JStr s) = []"
| "addrs_list h vs [] = []"
| "addrs_list h vs (x # xs) =
     (case vs of [] \<Rightarrow> [] | v # vs' \<Rightarrow> addrs h v x @ addrs_list h vs' xs)"
| "addrs_items h items [] = []"
| "addrs_items h items ((k, x) # kvs) =
     (case items of [] \<Rightarrow> [] | (k', v) # items' \<Rightarrow> addrs h v x @ addrs_items h items' kvs)"

definition tree :: "store \<Rightarrow> pyval \<Rightarrow> json \<Rightarrow> bool" where
  "tree h v j \<longleftrightarrow> denotes h v j \<and> distinct (addrs h v j)"

text \<open>The operations of Python the customizers use, on values of the store:
  \<^verbatim>\<open>x.copy()\<close>, \<^verbatim>\<open>k in x\<close>, \<^verbatim>\<open>x[k]\<close>, \<^verbatim>\<open>len(x)\<close>, \<^verbatim>\<open>x[0]\<close> and
  \<^verbatim>\<open>x[k] = v\<close>.\<close>

definition store_copy :: "pyval \<Rightarrow> store \<Rightarrow> pyerr + pyval \<times> store" where
  "store_copy v h =
     (case v of
        VRef a \<Rightarrow> (case deref h a of None \<Rightarrow> Inl SystemError | Some ob \<Rightarrow> Inr (alloc ob h))
      | _ \<Rightarrow> Inl AttributeError)"

definition store_in :: "string \<Rightarrow> pyval \<Rightarrow> store \<Rightarrow> pyerr + bool" where
  "store_in k v h =
     (case v of
        VRef a \<Rightarrow>
          (case deref h a of
             None \<Rightarrow> Inl SystemError
           | Some (ODict items) \<Rightarrow> Inr (map_of items k \<noteq> None)
           | Some (OList vs) \<Rightarrow> Inr (VStr k \<in> set vs))
      | VStr s \<Rightarrow> Inr (sublist k s)
      | _ \<Rightarrow> Inl TypeError)"

definition store_getitem :: "pyval \<Rightarrow> string \<Rightarrow> store \<Rightarrow> pyerr + pyval" where
  "store_getitem v k h =
     (case v of
        VRef a \<Rightarrow>
          (case deref h a of
             None \<Rightarrow> Inl SystemError
           | Some (ODict items) \<Rightarrow> (case map_of items k of None \<Rightarrow> Inl KeyError | Some x \<Rightarrow> Inr x)
           | Some (OList vs) \<Rightarrow> Inl TypeError)
      | _ \<Rightarrow> Inl TypeError)"

definition store_len :: "pyval \<Rightarrow> store \<Rightarrow> pyerr + nat" where
  "store_len v h =
     (case v of
        VRef a \<Rightarrow>
          (case deref h a of
             None \<Rightarrow> Inl SystemError
           | Some (ODict items) \<Rightarrow> Inr (length items)
           | Some (OList vs) \<Rightarrow> Inr (length vs))
      | VStr s \<Rightarrow> Inr (length s)
      | _ \<Rightarrow> Inl TypeError)"

definition store_first :: "pyval \<Rightarrow> store \<Rightarrow> pyerr + pyval" where
  "store_first v h =
     (case v of
        VRef a \<Rightarrow>
          (case deref h a of
             None \<Rightarrow> Inl SystemError
           | Some (ODict items) \<Rightarrow> Inl KeyError
           | Some (OList []) \<Rightarrow> Inl IndexError
           | Some (OList (x # xs)) \<Rightarrow> Inr x)
      | VStr [] \<Rightarrow> Inl IndexError
      | VStr (c # cs) \<Rightarrow> Inr (VStr [c])
      | _ \<Rightarrow> Inl TypeError)"

definition store_setitem :: "pyval \<Rightarrow> string \<Rightarrow> pyval \<Rightarrow> store \<Rightarrow> pyerr + store" where
  "store_setitem v k x h =
     (case v of
        VRef a \<Rightarrow>
          (case deref h a of
             None \<Rightarrow> Inl SystemError
           | Some (ODict items) \<Rightarrow> Inr (h[a := ODict (AList.update k x items)])
           | Some (OList vs) \<Rightarrow> Inl TypeError)
      | _ \<Rightarrow> Inl TypeError)"

text \<open>The two functions, statement by statement. In an assignment Python evaluates the
  right-hand side first, then the target.\<close>

definition update_server_url_store :: "pyval \<Rightarrow> string \<Rightarrow> store \<Rightarrow> pyerr + store" where
  "update_server_url_store customized_spec databricks_workspace_url h =
     (case store_in ''servers'' customized_spec h of
        Inl err \<Rightarrow> Inl err
      | Inr False \<Rightarrow> Inr h
      | Inr True \<Rightarrow>
          (case store_getitem customized_spec ''servers'' h of
             Inl err \<Rightarrow> Inl err
           | Inr servers \<Rightarrow>
               (case store_len servers h of
                  Inl err \<Rightarrow> Inl err
                | Inr n \<Rightarrow>
                    if n > 0 then
                      (case store_first servers h of
                         Inl err \<Rightarrow> Inl err
                       | Inr first \<Rightarrow> store_setitem first ''url'' (VStr databricks_workspace_url) h)
                    else Inr h)))"

definition update_security_schemes_store :: "pyval \<Rightarrow> store \<Rightarrow> pyerr + store" where
  "update_security_schemes_store customized_spec h =
     (case store_in ''components'' customized_spec h of
        Inl err \<Rightarrow> Inl err
      | Inr False \<Rightarrow> Inr h
      | Inr True \<Rightarrow>
          (case store_getitem customized_spec ''components'' h of
             Inl err \<Rightarrow> Inl err
           | Inr components \<Rightarrow>
               (case store_in ''securitySchemes'' components h of
                  Inl err \<Rightarrow> Inl err
                | Inr False \<Rightarrow> Inr h
                | Inr True \<Rightarrow>
                    (case build bearer_scheme h of
                       (scheme, h1) \<Rightarrow>
                         (case store_getitem customized_spec ''components'' h1 of
                            Inl err \<Rightarrow> Inl err
                          | Inr target \<Rightarrow> store_setitem target ''securitySchemes'' scheme h1)))))"

definition customize_openapi_spec_for_workspace_mi_store ::
  "pyval \<Rightarrow> string \<Rightarrow> store \<Rightarrow> pyerr + pyval \<times> store" where
  "customize_openapi_spec_for_workspace_mi_store spec databricks_workspace_url h =
     (case store_copy spec h of
        Inl err \<Rightarrow> Inl err
      | Inr (customized_spec, h1) \<Rightarrow>
          (case update_server_url_store customized_spec databricks_workspace_url h1 of
             Inl err \<Rightarrow> Inl err
           | Inr h2 \<Rightarrow> Inr (customized_spec, h2)))"

definition customize_openapi_spec_for_workspace_pat_store ::
  "pyval \<Rightarrow> string \<Rightarrow> store \<Rightarrow> pyerr + pyval \<times> store" where
  "customize_openapi_spec_for_workspace_pat_store spec databricks_workspace_url h =
     (case store_copy spec h of
        Inl err \<Rightarrow> Inl err
      | Inr (customized_spec, h1) \<Rightarrow>
          (case update_server_url_store customized_spec databricks_workspace_url h1 of
             Inl err \<Rightarrow> Inl err
           | Inr h2 \<Rightarrow>
               (case update_security_schemes_store customized_spec h2 of
                  Inl err \<Rightarrow> Inl err
                | Inr h3 \<Rightarrow>
                    (case build bearer_requirement h3 of
                       (requirement, h4) \<Rightarrow>
                         (case store_setitem customized_spec ''security'' requirement h4 of
                            Inl err \<Rightarrow> Inl err
                          | Inr h5 \<Rightarrow> Inr (customized_spec, h5))))))"


section \<open>The agent platform\<close>

text \<open>
  Modelled from the spec: the agent-hosting platform and its SDK surface
  (\<^verbatim>\<open>list_agents()\<close>, \<^verbatim>\<open>create_agent(model, name, description, instructions, tools)\<close>,
  \<^verbatim>\<open>update_agent(agent_id, name, description, instructions, tools, model)\<close>) are an
  external collaborator, not code of this repository. The spec's data model says of it:
  the platform assigns an opaque id at creation which is stable across updates, and an
  update overwrites the agent's mutable fields in place. A project is the list of its
  agents, in the order \<^verbatim>\<open>list_agents()\<close> yields them, together with the supply of
  ids the platform draws from. The spec's reconciler section says an update is a full
  overwrite, not a merge, with no partial-update semantics: after an update the agent's
  fields are the arguments of the call, and a field whose argument is not passed is
  unset (empty, for the model and the tool list, which both scripts always pass).
\<close>

record platform =
  agents :: "agent list"
  id_supply :: "nat \<Rightarrow> string"
  created_count :: nat

definition overwrite_fields :: "agent_args \<Rightarrow> agent \<Rightarrow> agent" where
  "overwrite_fields a x =
     x\<lparr> ag_name := arg_name a,
        ag_description := arg_description a,
        ag_instructions := arg_instructions a,
        ag_model := (case arg_model a of None \<Rightarrow> [] | Some m \<Rightarrow> m),
        ag_tools := (case arg_tools a of None \<Rightarrow> [] | Some ts \<Rightarrow> ts) \<rparr>"

fun update_by_id :: "string \<Rightarrow> agent_args \<Rightarrow> agent list \<Rightarrow> (agent \<times> agent list) option" where
  "update_by_id i a [] = None"
| "update_by_id i a (x # xs) =
     (if ag_id x = i then Some (overwrite_fields a x, overwrite_fields a x # xs)
      else (case update_by_id i a xs of
              None \<Rightarrow> None
            | Some (u, ys) \<Rightarrow> Some (u, x # ys)))"

definition client_list_agents :: "env \<Rightarrow> platform \<Rightarrow> pyerr + agent list" where
  "client_list_agents e p =
     (case list_agents_fault e of Some err \<Rightarrow> Inl err | None \<Rightarrow> Inr (agents p))"

definition client_update_agent :: "env \<Rightarrow> platform \<Rightarrow> string \<Rightarrow> agent_args \<Rightarrow> pyerr + agent \<times> platform" where
  "client_update_agent e p i a =
     (case update_agent_fault e of
        Some err \<Rightarrow> Inl err
      | None \<Rightarrow>
          (case update_by_id i a (agents p) of
             None \<Rightarrow> Inl (ExternalError ''agent not found'')
           | Some (u, ys) \<Rightarrow> Inr (u, p\<lparr>agents := ys\<rparr>)))"

definition client_create_agent :: "env \<Rightarrow> platform \<Rightarrow> agent_args \<Rightarrow> pyerr + agent \<times> platform" where
  "client_create_agent e p a =
     (case create_agent_fault e of
        Some err \<Rightarrow> Inl err
      | None \<Rightarrow>
          (let new = \<lparr> ag_id = id_supply p (created_count p),
                       ag_name = arg_name a,
                       ag_description = arg_description a,
                       ag_instructions = arg_instructions a,
                       ag_model = (case arg_model a of None \<Rightarrow> [] | Some m \<Rightarrow> m),
                       ag_tools = (case arg_tools a of None \<Rightarrow> [] | Some ts \<Rightarrow> ts) \<rparr>
           in Inr (new, p\<lparr>agents := agents p @ [new], created_count := Suc (created_count p)\<rparr>)))"

section \<open>Mode B: register_databricks_openapi_tool\<close>

text \<open>
  Step 1, lines 271 to 285. \<^verbatim>\<open>if databricks_pat:\<close> is Python truthiness of a
  \<^verbatim>\<open>str | None\<close>: \<^verbatim>\<open>None\<close> and the empty string both take the \<^verbatim>\<open>else\<close>
  branch, which creates a token. The result is the token and its provenance tag.
\<close>

definition acquire_pat ::
  "env \<Rightarrow> string \<Rightarrow> string option \<Rightarrow> int \<Rightarrow> string \<Rightarrow> (pyerr + json \<times> string) \<times> event list" where
  "acquire_pat e databricks_workspace_url databricks_pat pat_lifetime_days pat_comment =
     (let generated =
            (case create_databricks_pat e databricks_workspace_url pat_comment pat_lifetime_days of
               (Inl err, ev) \<Rightarrow> (Inl err, ev)
             | (Inr pat_token, ev) \<Rightarrow> (Inr (pat_token, ''generated''), ev))
      in case databricks_pat of
           None \<Rightarrow> generated
         | Some s \<Rightarrow>
             if s = [] then generated
             else if py_strip s = [] then
               (Inl (ValueError ''--databricks-pat cannot be empty when provided''), [])
             else (Inr (JStr (py_strip s), ''provided''), []))"

definition instructions_pat :: string where
  "instructions_pat =
     ''You are a helpful AI assistant with access to Azure Databricks. '' @
     ''You can help users interact with Databricks resources including '' @
     ''clusters, jobs, workspaces and vector search endpoints. '' @
     ''When users ask about Databricks resources, use the '' @
     ''databricks_api tool to retrieve information.''"

definition openapi_tool_pat :: "json \<Rightarrow> string \<Rightarrow> tool" where
  "openapi_tool_pat openapi_spec connection_id =
     \<lparr> tool_name = ''databricks_api'',
       tool_description =
         ''Access to Azure Databricks REST API including clusters, jobs, '' @
         ''workspace management, command execution, and vector search'',
       tool_spec = openapi_spec,
       tool_auth = ConnectionAuth connection_id \<rparr>"

text \<open>Lines 332 to 362: list the agents, take the first whose name is the desired one,
  update it or create a new agent. The agent returned is the platform's answer.
  \<^verbatim>\<open>if existing_agent:\<close> tests a value that is \<^verbatim>\<open>None\<close> or an agent object
  with a name, which is truthy.\<close>

definition reconcile_agent_pat ::
  "env \<Rightarrow> platform \<Rightarrow> string \<Rightarrow> string \<Rightarrow> tool \<Rightarrow> (pyerr + agent) \<times> event list \<times> platform" where
  "reconcile_agent_pat e p agent_name model_deployment_name openapi_tool =
     (case client_list_agents e p of
        Inl err \<Rightarrow> (Inl err, [ListAgents], p)
      | Inr listed \<Rightarrow>
          (let existing_agent = find (\<lambda>agent. ag_name agent = Some agent_name) listed;
               args = \<lparr> arg_name = Some agent_name,
                        arg_description = None,
                        arg_instructions = Some instructions_pat,
                        arg_model = Some model_deployment_name,
                        arg_tools = Some [openapi_tool] \<rparr>
           in case existing_agent of
                Some existing \<Rightarrow>
                  (case client_update_agent e p (ag_id existing) args of
                     Inl err \<Rightarrow> (Inl err, [ListAgents, UpdateAgent (ag_id existing) args], p)
                   | Inr (agent, p') \<Rightarrow> (Inr agent, [ListAgents, UpdateAgent (ag_id existing) args], p'))
              | None \<Rightarrow>
                  (case client_create_agent e p args of
                     Inl err \<Rightarrow> (Inl err, [ListAgents, CreateAgent args], p)
                   | Inr (agent, p') \<Rightarrow> (Inr agent, [ListAgents, CreateAgent args], p'))))"

text \<open>Lines 366 to 382: the record printed on standard output.\<close>

definition config_pat ::
  "string \<Rightarrow> string \<Rightarrow> agent \<Rightarrow> string \<Rightarrow> string \<Rightarrow> string \<Rightarrow> int \<Rightarrow> string \<Rightarrow> json" where
  "config_pat project_endpoint model_deployment_name agent databricks_workspace_url
       connection_name connection_id pat_lifetime_days pat_source =
     JObj [
       (''ai_foundry_project_endpoint'', JStr project_endpoint),
       (''ai_model_deployment_name'', JStr model_deployment_name),
       (''ai_foundry_agent_id'', JStr (ag_id agent)),
       (''agent_name'', (case ag_name agent of None \<Rightarrow> JNull | Some n \<Rightarrow> JStr n)),
       (''databricks_workspace_url'', JStr databricks_workspace_url),
       (''auth_type'', JStr ''PersonalAccessToken''),
       (''connection_name'', JStr connection_name),
       (''connection_id'', JStr connection_id),
       (''pat_lifetime_days'', (if pat_source = ''generated'' then JInt pat_lifetime_days else JNull)),
       (''pat_source'', JStr pat_source)]"

text \<open>
  The whole function, lines 247 to 384. It returns the agent id or the exception, the
  events of the run in order, and the platform's state afterwards. Constructing
  \<^verbatim>\<open>DefaultAzureCredential\<close> and \<^verbatim>\<open>AIProjectClient\<close> contacts nothing.
  The loaded document is a fresh object that nothing else holds, so the run uses the
  value the customizer returns; \<open>customize_pat_store_refines\<close> and
  \<open>customize_mi_store_refines\<close> below show that this is the document the returned
  object denotes.
\<close>

definition register_databricks_openapi_tool_pat ::
  "env \<Rightarrow> platform \<Rightarrow> url \<Rightarrow> url \<Rightarrow> resource_name \<Rightarrow> resource_name \<Rightarrow> resource_name
     \<Rightarrow> string \<Rightarrow> resource_name \<Rightarrow> resource_name \<Rightarrow> resource_name
     \<Rightarrow> string option \<Rightarrow> int \<Rightarrow> string \<Rightarrow> (pyerr + string) \<times> event list \<times> platform" where
  "register_databricks_openapi_tool_pat e p project_endpoint databricks_workspace_url connection_name
       agent_name model_deployment_name subscription_id resource_group account_name project_name
       databricks_pat pat_lifetime_days pat_comment =
     (case acquire_pat e databricks_workspace_url databricks_pat pat_lifetime_days pat_comment of
        (Inl err, ev1) \<Rightarrow> (Inl err, ev1, p)
      | (Inr (pat_token, pat_source), ev1) \<Rightarrow>
     (case create_ai_foundry_connection e connection_name pat_token subscription_id resource_group
             account_name project_name of
        (Inl err, ev2) \<Rightarrow> (Inl err, ev1 @ ev2, p)
      | (Inr connection_id, ev2) \<Rightarrow>
     (case load_databricks_openapi_spec_pat e of
        Inl err \<Rightarrow> (Inl err, ev1 @ ev2 @ [ReadSpecFile], p)
      | Inr loaded \<Rightarrow>
     (case customize_openapi_spec_for_workspace_pat loaded databricks_workspace_url of
        Inl err \<Rightarrow> (Inl err, ev1 @ ev2 @ [ReadSpecFile], p)
      | Inr openapi_spec \<Rightarrow>
     (case reconcile_agent_pat e p agent_name model_deployment_name
             (openapi_tool_pat openapi_spec connection_id) of
        (Inl err, ev3, p') \<Rightarrow> (Inl err, ev1 @ ev2 @ [ReadSpecFile] @ ev3, p')
      | (Inr agent, ev3, p') \<Rightarrow>
          (Inr (ag_id agent),
           ev1 @ ev2 @ [ReadSpecFile] @ ev3 @
             [PrintJson (config_pat project_endpoint model_deployment_name agent
                           databricks_workspace_url connection_name connection_id
                           pat_lifetime_days pat_source)],
           p'))))))"

section \<open>Mode A: the managed-identity script\<close>

definition load_databricks_openapi_spec_mi :: "env \<Rightarrow> pyerr + json" where
  "load_databricks_openapi_spec_mi e =
     (case spec_file_content e of
        Missing \<Rightarrow> Inl (FileNotFoundError (''Databricks OpenAPI spec not found: '' @ spec_path e))
      | Malformed \<Rightarrow> Inl JSONDecodeError
      | Document d \<Rightarrow> Inr d)"

definition instructions_mi :: string where
  "instructions_mi =
     ''You are an AI assistant with access to Azure Databricks APIs.\<newline>'' @
     ''\<newline>'' @
     ''You can help with:\<newline>'' @
     ''- Managing Databricks clusters (list, create, start, stop, delete)\<newline>'' @
     ''- Running and monitoring Databricks jobs\<newline>'' @
     ''- Managing workspace notebooks and files\<newline>'' @
     ''- Executing commands on clusters\<newline>'' @
     ''- Vector search operations (creating endpoints and indexes, querying vectors)\<newline>'' @
     ''\<newline>'' @
     ''When using the Databricks API:\<newline>'' @
     ''1. Always check cluster status before executing commands\<newline>'' @
     ''2. Use appropriate error handling\<newline>'' @
     ''3. For vector search, understand the difference between Delta Sync and Direct Access indexes\<newline>'' @
     ''4. Remember that authentication is handled automatically via managed identity\<newline>'' @
     ''\<newline>'' @
     ''Be helpful and provide clear explanations of what you're doing.''"

definition description_mi :: string where
  "description_mi = ''AI Agent with access to Azure Databricks APIs via Managed Identity''"

definition tool_definition_mi :: "json \<Rightarrow> tool" where
  "tool_definition_mi openapi_spec =
     \<lparr> tool_name = ''databricks_api'',
       tool_description =
         ''Access to Azure Databricks REST API including clusters, jobs, '' @
         ''workspace management, command execution, and vector search operations'',
       tool_spec = openapi_spec,
       tool_auth = ManagedAuth ''2ff814a6-3304-4ab8-85cb-cd0e6f879c1d'' \<rparr>"

text \<open>Lines 119 to 159. On the update path the id returned is
  \<^verbatim>\<open>existing_agent.id\<close>; on the create path it is the new agent's.\<close>

definition reconcile_agent_mi ::
  "env \<Rightarrow> platform \<Rightarrow> string \<Rightarrow> string \<Rightarrow> tool \<Rightarrow> (pyerr + string) \<times> event list \<times> platform" where
  "reconcile_agent_mi e p agent_name model_deployment_name tool_definition =
     (case client_list_agents e p of
        Inl err \<Rightarrow> (Inl err, [ListAgents], p)
      | Inr listed \<Rightarrow>
          (let existing_agent = find (\<lambda>a. ag_name a = Some agent_name) listed;
               args = \<lparr> arg_name = Some agent_name,
                        arg_description = Some description_mi,
                        arg_instructions = Some instructions_mi,
                        arg_model = Some model_deployment_name,
                        arg_tools = Some [tool_definition] \<rparr>
           in case existing_agent of
                Some existing \<Rightarrow>
                  (case client_update_agent e p (ag_id existing) args of
                     Inl err \<Rightarrow> (Inl err, [ListAgents, UpdateAgent (ag_id existing) args], p)
                   | Inr (agent, p') \<Rightarrow> (Inr (ag_id existing), [ListAgents, UpdateAgent (ag_id existing) args], p'))
              | None \<Rightarrow>
                  (case client_create_agent e p args of
                     Inl err \<Rightarrow> (Inl err, [ListAgents, CreateAgent args], p)
                   | Inr (agent, p') \<Rightarrow> (Inr (ag_id agent), [ListAgents, CreateAgent args], p'))))"

text \<open>The whole function, lines 71 to 162.\<close>

definition register_databricks_openapi_tool_mi ::
  "env \<Rightarrow> platform \<Rightarrow> string \<Rightarrow> string \<Rightarrow> string \<Rightarrow> string \<Rightarrow> (pyerr + string) \<times> event list \<times> platform" where
  "register_databricks_openapi_tool_mi e p project_endpoint databricks_workspace_url agent_name
       model_deployment_name =
     (case load_databricks_openapi_spec_mi e of
        Inl err \<Rightarrow> (Inl err, [ReadSpecFile], p)
      | Inr loaded \<Rightarrow>
     (case customize_openapi_spec_for_workspace_mi loaded databricks_workspace_url of
        Inl err \<Rightarrow> (Inl err, [ReadSpecFile], p)
      | Inr openapi_spec \<Rightarrow>
     (case reconcile_agent_mi e p agent_name model_deployment_name (tool_definition_mi openapi_spec) of
        (r, ev, p') \<Rightarrow> (r, [ReadSpecFile] @ ev, p'))))"

section \<open>Reading a run\<close>

text \<open>Which events of a run are the printed record, a create call, an update call.\<close>

fun is_print :: "event \<Rightarrow> bool" where
  "is_print (PrintJson j) = True"
| "is_print ev = False"

fun is_create :: "event \<Rightarrow> bool" where
  "is_create (CreateAgent a) = True"
| "is_create ev = False"

fun is_update :: "event \<Rightarrow> bool" where
  "is_update (UpdateAgent i a) = True"
| "is_update ev = False"


fun update_calls :: "event list \<Rightarrow> (string \<times> agent_args) list" where
  "update_calls [] = []"
| "update_calls (UpdateAgent i a # evs) = (i, a) # update_calls evs"
| "update_calls (ev # evs) = update_calls evs"

section \<open>Sample data\<close>

text \<open>A project with two agents, a specification document with the shape the scripts
  expect, and collaborators that answer every call. The theorems below are instantiated
  on them.\<close>

definition quoted :: "string \<Rightarrow> string" where
  "quoted s = CHR 0x22 # s @ [CHR 0x22]"

definition sample_token_response :: response where
  "sample_token_response =
     \<lparr> status_code = 200,
       body_text = ''{'' @ quoted ''token_value'' @ '': '' @ quoted ''dapi-generated'' @ ''}'',
       body_json = Some (JObj [(''token_value'', JStr ''dapi-generated'')]) \<rparr>"

definition sample_put_response :: response where
  "sample_put_response = \<lparr> status_code = 201, body_text = ''{}'', body_json = Some (JObj []) \<rparr>"

definition sample_spec :: json where
  "sample_spec =
     JObj [(''openapi'', JStr ''3.0.1''),
           (''servers'', JArr [JObj [(''url'', JStr ''https://workspace.invalid'')]]),
           (''components'', JObj [(''securitySchemes'',
               JObj [(''oauth2'', JObj [(''type'', JStr ''oauth2'')])])]),
           (''security'', JArr [JObj [(''oauth2'', JArr [])]])]"

definition sample_env :: env where
  "sample_env =
     \<lparr> databricks_token_outcome = Inr ''aad-dbx'',
       management_token_outcome = Inr ''aad-mgmt'',
       token_create_outcome = Inr sample_token_response,
       connection_put_outcome = Inr sample_put_response,
       spec_path = ''/app/azure_databricks_openapi_spec.json'',
       spec_file_content = Document sample_spec,
       list_agents_fault = None,
       update_agent_fault = None,
       create_agent_fault = None,
       py_repr = (\<lambda>v. ''<object>'') \<rparr>"

definition sample_agent :: agent where
  "sample_agent =
     \<lparr> ag_id = ''asst_42'', ag_name = Some ''DatabricksVectorSearchAgent'',
       ag_description = Some ''first version'', ag_instructions = Some ''old instructions'',
       ag_model = ''gpt-4'', ag_tools = [] \<rparr>"

definition sample_platform :: platform where
  "sample_platform =
     \<lparr> agents = [\<lparr> ag_id = ''asst_7'', ag_name = Some ''Helper'', ag_description = None,
                   ag_instructions = None, ag_model = ''gpt-4o'', ag_tools = [] \<rparr>,
                 sample_agent],
       id_supply = (\<lambda>n. ''asst_new_'' @ str_nat n),
       created_count = 0 \<rparr>"

definition sample_denied_response :: response where
  "sample_denied_response = \<lparr> status_code = 403, body_text = ''Forbidden'', body_json = None \<rparr>"

definition sample_conflict_response :: response where
  "sample_conflict_response = \<lparr> status_code = 409, body_text = ''Conflict'', body_json = None \<rparr>"

definition sample_spec_without_schemes :: json where
  "sample_spec_without_schemes =
     JObj [(''openapi'', JStr ''3.0.1''),
           (''servers'', JArr [JObj [(''url'', JStr ''https://workspace.invalid'')]]),
           (''components'', JObj [(''schemas'', JObj [])])]"

section \<open>Evaluating the sample runs\<close>

lemmas sample_defs = sample_env_def sample_platform_def sample_agent_def sample_spec_def
  sample_token_response_def sample_put_response_def sample_denied_response_def
  sample_conflict_response_def quoted_def

lemmas run_defs = register_databricks_openapi_tool_pat_def register_databricks_openapi_tool_mi_def
  acquire_pat_def create_databricks_pat_def create_ai_foundry_connection_def
  load_databricks_openapi_spec_pat_def load_databricks_openapi_spec_mi_def
  customize_openapi_spec_for_workspace_pat_def customize_openapi_spec_for_workspace_mi_def
  update_server_url_def update_security_schemes_def set_first_server_url_def
  reconcile_agent_pat_def reconcile_agent_mi_def client_list_agents_def client_update_agent_def
  client_create_agent_def overwrite_fields_def py_strip_def py_isspace_def Let_def

lemma str_int_403: "str_int 403 = ''403''"
  by (simp add: str_int_def str_nat.simps digit_char_def)

lemma str_int_409: "str_int 409 = ''409''"
  by (simp add: str_int_def str_nat.simps digit_char_def)

lemmas customize_defs = customize_openapi_spec_for_workspace_pat_def
  customize_openapi_spec_for_workspace_mi_def update_server_url_def update_security_schemes_def
  set_first_server_url_def bearer_scheme_def bearer_requirement_def

lemmas store_defs = customize_openapi_spec_for_workspace_pat_store_def
  customize_openapi_spec_for_workspace_mi_store_def update_server_url_store_def
  update_security_schemes_store_def store_copy_def store_in_def store_getitem_def store_len_def
  store_first_def store_setitem_def deref_def alloc_def bearer_scheme_def bearer_requirement_def

section \<open>Stripping\<close>

lemma dropWhile_rev_dropWhile_Nil:
  "dropWhile P (rev (dropWhile P s)) = [] \<longleftrightarrow> dropWhile P s = []"
proof
  assume a: "dropWhile P (rev (dropWhile P s)) = []"
  show "dropWhile P s = []"
  proof (rule ccontr)
    assume ne: "dropWhile P s \<noteq> []"
    then have "\<not> P (hd (dropWhile P s))" by (rule hd_dropWhile)
    moreover from ne have "hd (dropWhile P s) \<in> set (rev (dropWhile P s))" by simp
    moreover from a have "\<forall>x\<in>set (rev (dropWhile P s)). P x" by (simp only: dropWhile_eq_Nil_conv)
    ultimately show False by blast
  qed
next
  assume "dropWhile P s = []"
  then show "dropWhile P (rev (dropWhile P s)) = []" by (simp only: rev.simps dropWhile.simps)
qed

lemma py_strip_empty_iff: "py_strip s = [] \<longleftrightarrow> list_all py_isspace s"
  unfolding py_strip_def rev_is_Nil_conv dropWhile_rev_dropWhile_Nil
  by (simp add: list_all_iff)

lemma py_strip_nonempty: "py_strip s \<noteq> [] \<Longrightarrow> s \<noteq> []"
  by (auto simp: py_strip_def)

section \<open>The connection provisioner\<close>

text \<open>
  Claim C5. Once the management token is obtained and the PUT has returned a response,
  status 200 and status 201 are both success and give the connection id built from the
  subscription, resource group, account, project and connection name, whatever the body
  says; every other status raises the error whose message holds the status and the body.
\<close>

theorem connection_provisioner_status:
  assumes "management_token_outcome e = Inr token"
    and "connection_put_outcome e = Inr resp"
  shows "fst (create_ai_foundry_connection e connection_name databricks_pat subscription_id
                resource_group account_name project_name) =
         (if status_code resp = 200 \<or> status_code resp = 201 then
            Inr (''/subscriptions/'' @ subscription_id @ ''/resourceGroups/'' @ resource_group @
                 ''/providers/Microsoft.CognitiveServices/accounts/'' @ account_name @
                 ''/projects/'' @ project_name @ ''/connections/'' @ connection_name)
          else Inl (RuntimeError (''Failed to create connection: '' @ str_int (status_code resp)
                                    @ '' - '' @ body_text resp)))"
  using assms by (simp add: create_ai_foundry_connection_def connection_resource_id_def Let_def)

text \<open>The sample collaborators answer 201; with the same collaborators answering 409 the
  call fails.\<close>

theorem connection_provisioner_status_witness:
  "management_token_outcome sample_env = Inr ''aad-mgmt'' \<and>
   connection_put_outcome sample_env = Inr sample_put_response \<and>
   connection_put_outcome (sample_env\<lparr>connection_put_outcome := Inr sample_conflict_response\<rparr>)
     = Inr sample_conflict_response \<and>
   fst (create_ai_foundry_connection sample_env ''databricks-pat-connection'' (JStr ''abc123'')
          ''sub-1'' ''rg-1'' ''acct'' ''proj'') =
     Inr ''/subscriptions/sub-1/resourceGroups/rg-1/providers/Microsoft.CognitiveServices/accounts/acct/projects/proj/connections/databricks-pat-connection'' \<and>
   fst (create_ai_foundry_connection (sample_env\<lparr>connection_put_outcome := Inr sample_conflict_response\<rparr>)
          ''databricks-pat-connection'' (JStr ''abc123'') ''sub-1'' ''rg-1'' ''acct'' ''proj'') =
     Inl (RuntimeError ''Failed to create connection: 409 - Conflict'')"
proof -
  have t: "management_token_outcome sample_env = Inr ''aad-mgmt''"
    and t': "management_token_outcome (sample_env\<lparr>connection_put_outcome := Inr sample_conflict_response\<rparr>) = Inr ''aad-mgmt''"
    and r: "connection_put_outcome sample_env = Inr sample_put_response"
    and r': "connection_put_outcome (sample_env\<lparr>connection_put_outcome := Inr sample_conflict_response\<rparr>)
               = Inr sample_conflict_response"
    by (simp_all add: sample_env_def)
  note s = str_int_409
  show ?thesis
    using connection_provisioner_status [OF t r, of "''databricks-pat-connection''" "JStr ''abc123''" "''sub-1''" "''rg-1''" "''acct''" "''proj''"]
      connection_provisioner_status [OF t' r', of "''databricks-pat-connection''" "JStr ''abc123''" "''sub-1''" "''rg-1''" "''acct''" "''proj''"]
      t r r' s
    by (simp add: sample_put_response_def sample_conflict_response_def)
qed

section \<open>Credential acquisition\<close>

text \<open>
  Claim C7. A provided credential that is non-empty after stripping is acquired as the
  stripped string with provenance \<open>provided\<close>, and no call is made: the event list of
  the step is empty.
\<close>

theorem provided_pat_is_stripped:
  assumes "py_strip s \<noteq> []"
  shows "acquire_pat e url (Some s) days comment = (Inr (JStr (py_strip s), ''provided''), [])"
proof -
  from assms have "s \<noteq> []" by (rule py_strip_nonempty)
  with assms show ?thesis by (simp add: acquire_pat_def Let_def)
qed

text \<open>The credential \<^verbatim>\<open>" abc123 "\<close> is acquired as \<^verbatim>\<open>"abc123"\<close>.\<close>

theorem provided_pat_is_stripped_witness:
  "py_strip '' abc123 '' \<noteq> [] \<and>
   acquire_pat sample_env ''https://adb-1.azuredatabricks.net'' (Some '' abc123 '') 90 ''AI Foundry Agent''
     = (Inr (JStr ''abc123'', ''provided''), [])"
proof -
  have s: "py_strip '' abc123 '' = ''abc123''" by (simp add: py_strip_def py_isspace_def)
  then have "py_strip '' abc123 '' \<noteq> []" by simp
  from provided_pat_is_stripped [OF this, of sample_env "''https://adb-1.azuredatabricks.net''" 90 "''AI Foundry Agent''"] s
  show ?thesis by simp
qed

text \<open>A string of whitespace that is not empty is rejected before any call.\<close>

lemma whitespace_pat_rejected:
  assumes "s \<noteq> []" and "list_all py_isspace s"
  shows "acquire_pat e url (Some s) days comment =
           (Inl (ValueError ''--databricks-pat cannot be empty when provided''), [])"
  using assms by (simp add: acquire_pat_def Let_def py_strip_empty_iff)

text \<open>
  Claim C2 fails on the code at the empty string. \<^verbatim>\<open>if databricks_pat:\<close> is false
  for \<^verbatim>\<open>""\<close>, so the check whose message reads "cannot be empty when provided" is
  never reached: the identity provider is asked for a token and the token endpoint is
  called, and the credential comes back tagged \<open>generated\<close>.
\<close>

theorem empty_provided_pat_generates_token:
  "acquire_pat sample_env ''https://adb-1.azuredatabricks.net'' (Some '''') 90 ''AI Foundry Agent'' =
     (Inr (JStr ''dapi-generated'', ''generated''),
      [GetToken ''2ff814a6-3304-4ab8-85cb-cd0e6f879c1d/.default'',
       HttpPost ''https://adb-1.azuredatabricks.net/api/2.0/token/create''
         [(''Authorization'', ''Bearer aad-dbx''), (''Content-Type'', ''application/json'')]
         (JObj [(''comment'', JStr ''AI Foundry Agent''), (''lifetime_seconds'', JInt 7776000)])])"
  by (simp add: acquire_pat_def create_databricks_pat_def sample_env_def sample_token_response_def Let_def)

text \<open>
  Claim C4. On the generation path (no credential passed, or the empty string), when the
  token endpoint answers with a status other than 200 the run ends with the error whose
  message holds that status and the body; the events of the run are the token request
  and the POST and nothing else, and the platform is as it was.
\<close>

theorem token_creation_failure_stops_run:
  assumes "databricks_pat = None \<or> databricks_pat = Some []"
    and "databricks_token_outcome e = Inr token"
    and "token_create_outcome e = Inr resp"
    and "status_code resp \<noteq> 200"
  shows "register_databricks_openapi_tool_pat e p project_endpoint databricks_workspace_url
           connection_name agent_name model_deployment_name subscription_id resource_group
           account_name project_name databricks_pat pat_lifetime_days pat_comment =
         (Inl (RuntimeError (''Failed to create PAT: '' @ str_int (status_code resp) @ '' - ''
                               @ body_text resp)),
          [GetToken ''2ff814a6-3304-4ab8-85cb-cd0e6f879c1d/.default'',
           HttpPost (databricks_workspace_url @ ''/api/2.0/token/create'')
             [(''Authorization'', ''Bearer '' @ token), (''Content-Type'', ''application/json'')]
             (JObj [(''comment'', JStr pat_comment),
                    (''lifetime_seconds'', JInt (pat_lifetime_days * 24 * 60 * 60))])],
          p)"
proof -
  have "create_databricks_pat e databricks_workspace_url pat_comment pat_lifetime_days =
         (Inl (RuntimeError (''Failed to create PAT: '' @ str_int (status_code resp) @ '' - ''
                               @ body_text resp)),
          [GetToken ''2ff814a6-3304-4ab8-85cb-cd0e6f879c1d/.default'',
           HttpPost (databricks_workspace_url @ ''/api/2.0/token/create'')
             [(''Authorization'', ''Bearer '' @ token), (''Content-Type'', ''application/json'')]
             (JObj [(''comment'', JStr pat_comment),
                    (''lifetime_seconds'', JInt (pat_lifetime_days * 24 * 60 * 60))])])"
    using assms(2-4) by (simp add: create_databricks_pat_def Let_def)
  then have "acquire_pat e databricks_workspace_url databricks_pat pat_lifetime_days pat_comment =
         (Inl (RuntimeError (''Failed to create PAT: '' @ str_int (status_code resp) @ '' - ''
                               @ body_text resp)),
          [GetToken ''2ff814a6-3304-4ab8-85cb-cd0e6f879c1d/.default'',
           HttpPost (databricks_workspace_url @ ''/api/2.0/token/create'')
             [(''Authorization'', ''Bearer '' @ token), (''Content-Type'', ''application/json'')]
             (JObj [(''comment'', JStr pat_comment),
                    (''lifetime_seconds'', JInt (pat_lifetime_days * 24 * 60 * 60))])])"
    using assms(1) by (auto simp: acquire_pat_def Let_def)
  then show ?thesis by (simp add: register_databricks_openapi_tool_pat_def)
qed

text \<open>The sample run with the token endpoint answering 403.\<close>

theorem token_creation_failure_stops_run_witness:
  "(None = (None :: string option) \<or> None = Some []) \<and>
   databricks_token_outcome (sample_env\<lparr>token_create_outcome := Inr sample_denied_response\<rparr>) = Inr ''aad-dbx'' \<and>
   token_create_outcome (sample_env\<lparr>token_create_outcome := Inr sample_denied_response\<rparr>) = Inr sample_denied_response \<and>
   status_code sample_denied_response \<noteq> 200 \<and>
   register_databricks_openapi_tool_pat (sample_env\<lparr>token_create_outcome := Inr sample_denied_response\<rparr>)
       sample_platform ''https://acct.services.ai.azure.com/api/projects/proj''
       ''https://adb-1.azuredatabricks.net'' ''databricks-pat-connection''
       ''DatabricksVectorSearchAgent'' ''gpt-4o'' ''sub-1'' ''rg-1'' ''acct'' ''proj'' None 90
       ''AI Foundry Agent'' =
     (Inl (RuntimeError ''Failed to create PAT: 403 - Forbidden''),
      [GetToken ''2ff814a6-3304-4ab8-85cb-cd0e6f879c1d/.default'',
       HttpPost ''https://adb-1.azuredatabricks.net/api/2.0/token/create''
         [(''Authorization'', ''Bearer aad-dbx''), (''Content-Type'', ''application/json'')]
         (JObj [(''comment'', JStr ''AI Foundry Agent''), (''lifetime_seconds'', JInt 7776000)])],
      sample_platform)"
proof -
  let ?e = "sample_env\<lparr>token_create_outcome := Inr sample_denied_response\<rparr>"
  have a: "None = (None :: string option) \<or> None = Some []" by simp
  have b: "databricks_token_outcome ?e = Inr ''aad-dbx''" by (simp add: sample_env_def)
  have c: "token_create_outcome ?e = Inr sample_denied_response" by simp
  have d: "status_code sample_denied_response \<noteq> 200" by (simp add: sample_denied_response_def)
  note s = str_int_403
  show ?thesis
    using token_creation_failure_stops_run [OF a b c d, of sample_platform "''https://acct.services.ai.azure.com/api/projects/proj''"
       "''https://adb-1.azuredatabricks.net''" "''databricks-pat-connection''"
       "''DatabricksVectorSearchAgent''" "''gpt-4o''" "''sub-1''" "''rg-1''" "''acct''" "''proj''" 90
       "''AI Foundry Agent''"] b c d s
    by (simp add: sample_denied_response_def)
qed

section \<open>The agent reconciler\<close>

lemma update_by_id_found:
  "find P xs = Some ex \<Longrightarrow> \<exists>u ys. update_by_id (ag_id ex) a xs = Some (u, ys) \<and> ag_id u = ag_id ex"
proof (induction xs)
  case Nil
  then show ?case by simp
next
  case (Cons x xs)
  show ?case
  proof (cases "ag_id x = ag_id ex")
    case True
    then show ?thesis by (simp add: overwrite_fields_def)
  next
    case False
    with Cons.prems have "find P xs = Some ex" by (auto split: if_splits)
    from Cons.IH [OF this] False show ?thesis by auto
  qed
qed

lemma update_by_id_keeps_match:
  "find (\<lambda>x. ag_name x = Some n) xs = Some ex \<Longrightarrow> arg_name a = Some n \<Longrightarrow>
   update_by_id (ag_id ex) a xs = Some (u, ys) \<Longrightarrow>
   \<exists>ex'. find (\<lambda>x. ag_name x = Some n) ys = Some ex' \<and> ag_id ex' = ag_id ex"
proof (induction xs arbitrary: ys)
  case Nil
  then show ?case by simp
next
  case (Cons x xs)
  show ?case
  proof (cases "ag_id x = ag_id ex")
    case True
    with Cons.prems show ?thesis by (auto simp: overwrite_fields_def)
  next
    case False
    with Cons.prems(1) have nx: "ag_name x \<noteq> Some n" and f: "find (\<lambda>x. ag_name x = Some n) xs = Some ex"
      by (auto split: if_splits)
    from Cons.prems(3) False obtain ys' where u: "update_by_id (ag_id ex) a xs = Some (u, ys')"
      and ys: "ys = x # ys'"
      by (auto split: option.splits)
    from Cons.IH [OF f Cons.prems(2) u] nx ys show ?thesis by simp
  qed
qed

lemma reconcile_agent_mi_update_path:
  assumes "find (\<lambda>a. ag_name a = Some agent_name) (agents p) = Some existing"
    and "list_agents_fault e = None" and "update_agent_fault e = None"
  shows "\<exists>p' ex'. reconcile_agent_mi e p agent_name model_deployment_name tool_definition =
           (Inr (ag_id existing),
            [ListAgents, UpdateAgent (ag_id existing)
               \<lparr> arg_name = Some agent_name, arg_description = Some description_mi,
                 arg_instructions = Some instructions_mi, arg_model = Some model_deployment_name,
                 arg_tools = Some [tool_definition] \<rparr>], p')
         \<and> find (\<lambda>a. ag_name a = Some agent_name) (agents p') = Some ex' \<and> ag_id ex' = ag_id existing
         \<and> id_supply p' = id_supply p \<and> created_count p' = created_count p"
proof -
  let ?a = "\<lparr> arg_name = Some agent_name, arg_description = Some description_mi,
                 arg_instructions = Some instructions_mi, arg_model = Some model_deployment_name,
                 arg_tools = Some [tool_definition] \<rparr>"
  from update_by_id_found [OF assms(1)] obtain u ys
    where u: "update_by_id (ag_id existing) ?a (agents p) = Some (u, ys)" and "ag_id u = ag_id existing"
    by blast
  from update_by_id_keeps_match [OF assms(1) _ u] obtain ex'
    where "find (\<lambda>a. ag_name a = Some agent_name) ys = Some ex'" "ag_id ex' = ag_id existing"
    by auto
  with u assms show ?thesis
    by (simp add: reconcile_agent_mi_def client_list_agents_def client_update_agent_def Let_def)
qed

lemma reconcile_agent_pat_update_path:
  assumes "find (\<lambda>a. ag_name a = Some agent_name) (agents p) = Some existing"
    and "list_agents_fault e = None" and "update_agent_fault e = None"
  shows "\<exists>u p' ex'. reconcile_agent_pat e p agent_name model_deployment_name openapi_tool =
           (Inr u,
            [ListAgents, UpdateAgent (ag_id existing)
               \<lparr> arg_name = Some agent_name, arg_description = None,
                 arg_instructions = Some instructions_pat, arg_model = Some model_deployment_name,
                 arg_tools = Some [openapi_tool] \<rparr>], p')
         \<and> ag_id u = ag_id existing
         \<and> find (\<lambda>a. ag_name a = Some agent_name) (agents p') = Some ex' \<and> ag_id ex' = ag_id existing"
proof -
  let ?a = "\<lparr> arg_name = Some agent_name, arg_description = None,
                 arg_instructions = Some instructions_pat, arg_model = Some model_deployment_name,
                 arg_tools = Some [openapi_tool] \<rparr>"
  from update_by_id_found [OF assms(1)] obtain u ys
    where u: "update_by_id (ag_id existing) ?a (agents p) = Some (u, ys)" and i: "ag_id u = ag_id existing"
    by blast
  from update_by_id_keeps_match [OF assms(1) _ u] obtain ex'
    where "find (\<lambda>a. ag_name a = Some agent_name) ys = Some ex'" "ag_id ex' = ag_id existing"
    by auto
  with u i assms show ?thesis
    by (simp add: reconcile_agent_pat_def client_list_agents_def client_update_agent_def Let_def)
qed

text \<open>Whatever the platform answers, a reconciler that found a match never creates.\<close>

lemma reconcile_agent_mi_events:
  assumes "find (\<lambda>a. ag_name a = Some agent_name) (agents p) = Some existing"
    and "reconcile_agent_mi e p agent_name model_deployment_name tool_definition = (Inr i, ev, p')"
  shows "i = ag_id existing \<and> filter is_create ev = [] \<and>
         filter is_update ev = [UpdateAgent (ag_id existing)
               \<lparr> arg_name = Some agent_name, arg_description = Some description_mi,
                 arg_instructions = Some instructions_mi, arg_model = Some model_deployment_name,
                 arg_tools = Some [tool_definition] \<rparr>] \<and>
         (\<exists>ex'. find (\<lambda>a. ag_name a = Some agent_name) (agents p') = Some ex' \<and> ag_id ex' = ag_id existing)"
proof -
  from assms(2) have l: "list_agents_fault e = None" and u: "update_agent_fault e = None"
    using assms(1)
    by (auto simp: reconcile_agent_mi_def client_list_agents_def client_update_agent_def Let_def
             split: option.splits sum.splits prod.splits)
  from reconcile_agent_mi_update_path [OF assms(1) l u, of model_deployment_name tool_definition] assms(2)
  show ?thesis by auto
qed

lemma reconcile_agent_pat_events:
  assumes "find (\<lambda>a. ag_name a = Some agent_name) (agents p) = Some existing"
    and "reconcile_agent_pat e p agent_name model_deployment_name openapi_tool = (Inr u, ev, p')"
  shows "ag_id u = ag_id existing \<and> filter is_create ev = [] \<and>
         filter is_update ev = [UpdateAgent (ag_id existing)
               \<lparr> arg_name = Some agent_name, arg_description = None,
                 arg_instructions = Some instructions_pat, arg_model = Some model_deployment_name,
                 arg_tools = Some [openapi_tool] \<rparr>] \<and>
         (\<exists>ex'. find (\<lambda>a. ag_name a = Some agent_name) (agents p') = Some ex' \<and> ag_id ex' = ag_id existing)"
proof -
  from assms(2) have l: "list_agents_fault e = None" and u: "update_agent_fault e = None"
    using assms(1)
    by (auto simp: reconcile_agent_pat_def client_list_agents_def client_update_agent_def Let_def
             split: option.splits sum.splits prod.splits)
  from reconcile_agent_pat_update_path [OF assms(1) l u, of model_deployment_name openapi_tool] assms(2)
  show ?thesis by auto
qed

section \<open>The whole workflow\<close>

lemma create_databricks_pat_events:
  "create_databricks_pat e url comment days = (r, ev) \<Longrightarrow>
   filter is_create ev = [] \<and> filter is_update ev = [] \<and> filter is_print ev = []"
  by (auto simp: create_databricks_pat_def Let_def split: sum.splits if_splits option.splits json.splits)

lemma acquire_pat_events:
  "acquire_pat e url pat days comment = (r, ev) \<Longrightarrow>
   filter is_create ev = [] \<and> filter is_update ev = [] \<and> filter is_print ev = []"
  by (auto simp: acquire_pat_def Let_def split: option.splits if_splits prod.splits sum.splits
           dest: create_databricks_pat_events)

lemma create_ai_foundry_connection_events:
  "create_ai_foundry_connection e cn pat sub rg acct proj = (r, ev) \<Longrightarrow>
   filter is_create ev = [] \<and> filter is_update ev = [] \<and> filter is_print ev = []"
  by (auto simp: create_ai_foundry_connection_def Let_def split: sum.splits if_splits)

lemma create_ai_foundry_connection_id:
  "create_ai_foundry_connection e cn pat sub rg acct proj = (Inr cid, ev) \<Longrightarrow>
   cid = connection_resource_id sub rg acct proj cn"
  by (auto simp: create_ai_foundry_connection_def Let_def split: sum.splits if_splits)

lemma reconcile_agent_pat_no_print:
  "reconcile_agent_pat e p an md t = (r, ev, p') \<Longrightarrow> filter is_print ev = []"
  by (auto simp: reconcile_agent_pat_def Let_def split: sum.splits option.splits prod.splits)

lemma register_mi_success:
  assumes "register_databricks_openapi_tool_mi e p project_endpoint databricks_workspace_url
             agent_name model_deployment_name = (Inr i, ev, p')"
  shows "\<exists>openapi_spec ev3.
           reconcile_agent_mi e p agent_name model_deployment_name (tool_definition_mi openapi_spec)
             = (Inr i, ev3, p') \<and> ev = ReadSpecFile # ev3"
  using assms
  by (auto simp: register_databricks_openapi_tool_mi_def split: sum.splits prod.splits)

lemma register_pat_success:
  assumes "register_databricks_openapi_tool_pat e p project_endpoint databricks_workspace_url
             connection_name agent_name model_deployment_name subscription_id resource_group
             account_name project_name databricks_pat pat_lifetime_days pat_comment = (Inr i, ev, p')"
  shows "\<exists>pat_token pat_source ev1 connection_id ev2 openapi_spec u ev3.
           acquire_pat e databricks_workspace_url databricks_pat pat_lifetime_days pat_comment
             = (Inr (pat_token, pat_source), ev1) \<and>
           create_ai_foundry_connection e connection_name pat_token subscription_id resource_group
             account_name project_name = (Inr connection_id, ev2) \<and>
           reconcile_agent_pat e p agent_name model_deployment_name
             (openapi_tool_pat openapi_spec connection_id) = (Inr u, ev3, p') \<and>
           i = ag_id u \<and>
           ev = ev1 @ ev2 @ [ReadSpecFile] @ ev3 @
                [PrintJson (config_pat project_endpoint model_deployment_name u
                   databricks_workspace_url connection_name connection_id pat_lifetime_days pat_source)]"
  using assms
  by (auto simp: register_databricks_openapi_tool_pat_def split: sum.splits prod.splits)

lemma register_mi_twice:
  assumes "find (\<lambda>a. ag_name a = Some agent_name) (agents p) = Some existing"
    and run1: "register_databricks_openapi_tool_mi e1 p project_endpoint databricks_workspace_url agent_name
          model_deployment_name = (Inr i1, ev1, p1)"
    and run2: "register_databricks_openapi_tool_mi e2 p1 project_endpoint databricks_workspace_url agent_name
          model_deployment_name = (Inr i2, ev2, p2)"
  shows "i1 = ag_id existing \<and> i2 = ag_id existing \<and> filter is_create ev2 = [] \<and>
        (\<exists>a. filter is_update ev2 = [UpdateAgent (ag_id existing) a])"
proof -
  from register_mi_success [OF run1] obtain s1 r1 where
    r1: "reconcile_agent_mi e1 p agent_name model_deployment_name (tool_definition_mi s1) = (Inr i1, r1, p1)"
    by blast
  from register_mi_success [OF run2] obtain s2 r2 where
    r2: "reconcile_agent_mi e2 p1 agent_name model_deployment_name (tool_definition_mi s2) = (Inr i2, r2, p2)"
    and ev2: "ev2 = ReadSpecFile # r2"
    by blast
  from reconcile_agent_mi_events [OF assms(1) r1] obtain ex' where
    i1: "i1 = ag_id existing" and
    m1: "find (\<lambda>a. ag_name a = Some agent_name) (agents p1) = Some ex'" and x: "ag_id ex' = ag_id existing"
    by blast
  from reconcile_agent_mi_events [OF m1 r2] x have
    i2: "i2 = ag_id existing" and c2: "filter is_create r2 = []" and
    u2: "\<exists>a. filter is_update r2 = [UpdateAgent (ag_id existing) a]"
    by auto
  show ?thesis
    using i1 i2 c2 u2 ev2 by simp
qed

lemma register_pat_twice:
  assumes "find (\<lambda>a. ag_name a = Some agent_name) (agents p) = Some existing"
    and run1: "register_databricks_openapi_tool_pat e1 p project_endpoint databricks_workspace_url
          connection_name agent_name model_deployment_name subscription_id resource_group
          account_name project_name databricks_pat pat_lifetime_days pat_comment = (Inr j1, fv1, q1)"
    and run2: "register_databricks_openapi_tool_pat e2 q1 project_endpoint databricks_workspace_url
          connection_name agent_name model_deployment_name subscription_id resource_group
          account_name project_name databricks_pat pat_lifetime_days pat_comment = (Inr j2, fv2, q2)"
  shows "j1 = ag_id existing \<and> j2 = ag_id existing \<and> filter is_create fv2 = [] \<and>
        (\<exists>a. filter is_update fv2 = [UpdateAgent (ag_id existing) a])"
proof -
  from register_pat_success [OF run1] obtain t1 u1 r1 where
    r1: "reconcile_agent_pat e1 p agent_name model_deployment_name t1 = (Inr u1, r1, q1)"
    and j1: "j1 = ag_id u1"
    by blast
  from register_pat_success [OF run2] obtain tok src a2 cid c2 sp u2 r2 where
    a2: "acquire_pat e2 databricks_workspace_url databricks_pat pat_lifetime_days pat_comment
           = (Inr (tok, src), a2)"
    and c2: "create_ai_foundry_connection e2 connection_name tok subscription_id resource_group
           account_name project_name = (Inr cid, c2)"
    and r2: "reconcile_agent_pat e2 q1 agent_name model_deployment_name (openapi_tool_pat sp cid)
           = (Inr u2, r2, q2)"
    and j2: "j2 = ag_id u2"
    and fv2: "fv2 = a2 @ c2 @ [ReadSpecFile] @ r2 @
                [PrintJson (config_pat project_endpoint model_deployment_name u2
                   databricks_workspace_url connection_name cid pat_lifetime_days src)]"
    by blast
  from reconcile_agent_pat_events [OF assms(1) r1] obtain ex' where
    i1: "ag_id u1 = ag_id existing" and
    m1: "find (\<lambda>a. ag_name a = Some agent_name) (agents q1) = Some ex'" and x: "ag_id ex' = ag_id existing"
    by blast
  from reconcile_agent_pat_events [OF m1 r2] x have
    i2: "ag_id u2 = ag_id existing" and cr: "filter is_create r2 = []" and
    up: "\<exists>a. filter is_update r2 = [UpdateAgent (ag_id existing) a]"
    by auto
  from acquire_pat_events [OF a2] have ea: "filter is_create a2 = []" "filter is_update a2 = []"
    by simp_all
  from create_ai_foundry_connection_events [OF c2] have ec: "filter is_create c2 = []" "filter is_update c2 = []"
    by simp_all
  show ?thesis
    using j1 j2 i1 i2 cr up ea ec fv2 by simp
qed

text \<open>
  The printed record on the branch taken at lines 272 to 277: a run of the PAT script
  that succeeds with a credential that is non-empty after stripping prints exactly one
  record, with \<open>auth_type\<close> PersonalAccessToken, \<open>pat_source\<close> provided,
  \<open>pat_lifetime_days\<close> null and the connection id built from the subscription,
  resource group, account, project and connection name.
\<close>

lemma mode_b_provided_pat_record:
  assumes "py_strip s \<noteq> []"
    and "register_databricks_openapi_tool_pat e p project_endpoint databricks_workspace_url
           connection_name agent_name model_deployment_name subscription_id resource_group
           account_name project_name (Some s) pat_lifetime_days pat_comment = (Inr i, ev, p')"
  shows "\<exists>config. filter is_print ev = [PrintJson (JObj config)] \<and>
           map_of config ''auth_type'' = Some (JStr ''PersonalAccessToken'') \<and>
           map_of config ''pat_source'' = Some (JStr ''provided'') \<and>
           map_of config ''pat_lifetime_days'' = Some JNull \<and>
           map_of config ''connection_id'' =
             Some (JStr (''/subscriptions/'' @ subscription_id @ ''/resourceGroups/'' @ resource_group @
                 ''/providers/Microsoft.CognitiveServices/accounts/'' @ account_name @
                 ''/projects/'' @ project_name @ ''/connections/'' @ connection_name))"
proof -
  from register_pat_success [OF assms(2)] obtain pat_token pat_source ev1 connection_id ev2 openapi_spec u ev3
    where a: "acquire_pat e databricks_workspace_url (Some s) pat_lifetime_days pat_comment
                = (Inr (pat_token, pat_source), ev1)"
      and c: "create_ai_foundry_connection e connection_name pat_token subscription_id resource_group
                account_name project_name = (Inr connection_id, ev2)"
      and r: "reconcile_agent_pat e p agent_name model_deployment_name
                (openapi_tool_pat openapi_spec connection_id) = (Inr u, ev3, p')"
      and ev: "ev = ev1 @ ev2 @ [ReadSpecFile] @ ev3 @
                [PrintJson (config_pat project_endpoint model_deployment_name u
                   databricks_workspace_url connection_name connection_id pat_lifetime_days pat_source)]"
    by blast
  from assms(1) have "s \<noteq> []" by (auto simp: py_strip_def)
  with assms(1) a have src: "pat_source = ''provided''" and ev1: "ev1 = []"
    by (auto simp: acquire_pat_def Let_def)
  from create_ai_foundry_connection_events [OF c] have p2: "filter is_print ev2 = []" by simp
  from reconcile_agent_pat_no_print [OF r] have p3: "filter is_print ev3 = []" .
  from create_ai_foundry_connection_id [OF c]
  have cid: "connection_id = connection_resource_id subscription_id resource_group account_name
               project_name connection_name" .
  have "filter is_print ev = [PrintJson (config_pat project_endpoint model_deployment_name u
                   databricks_workspace_url connection_name connection_id pat_lifetime_days ''provided'')]"
    using ev ev1 p2 p3 src by simp
  then show ?thesis
    unfolding config_pat_def cid connection_resource_id_def by simp
qed

text \<open>The sample run with the credential \<^verbatim>\<open>" abc123 "\<close>.\<close>

lemma mode_b_provided_pat_record_sample:
  "py_strip '' abc123 '' \<noteq> [] \<and>
   fst (register_databricks_openapi_tool_pat sample_env sample_platform
          ''https://acct.services.ai.azure.com/api/projects/proj''
          ''https://adb-1.azuredatabricks.net'' ''databricks-pat-connection''
          ''DatabricksVectorSearchAgent'' ''gpt-4o'' ''sub-1'' ''rg-1'' ''acct'' ''proj''
          (Some '' abc123 '') 90 ''AI Foundry Agent'') = Inr ''asst_42'' \<and>
   (\<exists>config.
      filter is_print (fst (snd (register_databricks_openapi_tool_pat sample_env sample_platform
          ''https://acct.services.ai.azure.com/api/projects/proj''
          ''https://adb-1.azuredatabricks.net'' ''databricks-pat-connection''
          ''DatabricksVectorSearchAgent'' ''gpt-4o'' ''sub-1'' ''rg-1'' ''acct'' ''proj''
          (Some '' abc123 '') 90 ''AI Foundry Agent''))) = [PrintJson (JObj config)] \<and>
      map_of config ''auth_type'' = Some (JStr ''PersonalAccessToken'') \<and>
      map_of config ''pat_source'' = Some (JStr ''provided'') \<and>
      map_of config ''pat_lifetime_days'' = Some JNull \<and>
      map_of config ''connection_id'' =
        Some (JStr ''/subscriptions/sub-1/resourceGroups/rg-1/providers/Microsoft.CognitiveServices/accounts/acct/projects/proj/connections/databricks-pat-connection''))"
proof -
  let ?run = "register_databricks_openapi_tool_pat sample_env sample_platform
          ''https://acct.services.ai.azure.com/api/projects/proj''
          ''https://adb-1.azuredatabricks.net'' ''databricks-pat-connection''
          ''DatabricksVectorSearchAgent'' ''gpt-4o'' ''sub-1'' ''rg-1'' ''acct'' ''proj''
          (Some '' abc123 '') 90 ''AI Foundry Agent''"
  have s: "py_strip '' abc123 '' \<noteq> []" by (simp add: py_strip_def py_isspace_def)
  have f: "fst ?run = Inr ''asst_42''"
    by (simp add: run_defs sample_defs)
  then obtain ev p' where run: "?run = (Inr ''asst_42'', ev, p')"
    by (cases ?run) auto
  from mode_b_provided_pat_record [OF s run] f run show ?thesis
    using s by simp
qed

text \<open>
  Claim C8 fails on the code at the empty string, by the slip of claim C2. With
  \<^verbatim>\<open>--databricks-pat ""\<close> the credential is provided, yet
  \<^verbatim>\<open>if databricks_pat:\<close> is false: the run creates a token, succeeds, and the one
  record it prints has \<open>pat_source\<close> generated and \<open>pat_lifetime_days\<close> 90.
\<close>

theorem empty_provided_pat_prints_generated:
  "fst (register_databricks_openapi_tool_pat sample_env sample_platform
          ''https://acct.services.ai.azure.com/api/projects/proj''
          ''https://adb-1.azuredatabricks.net'' ''databricks-pat-connection''
          ''DatabricksVectorSearchAgent'' ''gpt-4o'' ''sub-1'' ''rg-1'' ''acct'' ''proj''
          (Some []) 90 ''AI Foundry Agent'') = Inr ''asst_42'' \<and>
   filter is_print (fst (snd (register_databricks_openapi_tool_pat sample_env sample_platform
          ''https://acct.services.ai.azure.com/api/projects/proj''
          ''https://adb-1.azuredatabricks.net'' ''databricks-pat-connection''
          ''DatabricksVectorSearchAgent'' ''gpt-4o'' ''sub-1'' ''rg-1'' ''acct'' ''proj''
          (Some []) 90 ''AI Foundry Agent''))) =
     [PrintJson (JObj [
        (''ai_foundry_project_endpoint'', JStr ''https://acct.services.ai.azure.com/api/projects/proj''),
        (''ai_model_deployment_name'', JStr ''gpt-4o''),
        (''ai_foundry_agent_id'', JStr ''asst_42''),
        (''agent_name'', JStr ''DatabricksVectorSearchAgent''),
        (''databricks_workspace_url'', JStr ''https://adb-1.azuredatabricks.net''),
        (''auth_type'', JStr ''PersonalAccessToken''),
        (''connection_name'', JStr ''databricks-pat-connection''),
        (''connection_id'', JStr ''/subscriptions/sub-1/resourceGroups/rg-1/providers/Microsoft.CognitiveServices/accounts/acct/projects/proj/connections/databricks-pat-connection''),
        (''pat_lifetime_days'', JInt 90),
        (''pat_source'', JStr ''generated'')])]"
  by (simp add: run_defs sample_defs config_pat_def connection_resource_id_def)

text \<open>
  Claim C1. In a project where some listed agent has the desired name, let \<open>existing\<close>
  be the first such agent. When the platform answers, both reconcilers list the agents,
  issue one update call for \<open>existing\<close> and return its id. Two successive successful
  runs of either script with the same inputs both return that id, and the second run
  issues one update call and no create call.
\<close>

theorem reconciliation_keeps_agent_identity:
  assumes "find (\<lambda>a. ag_name a = Some agent_name) (agents p) = Some existing"
  shows
    "(list_agents_fault e = None \<and> update_agent_fault e = None \<longrightarrow>
        (\<exists>p'. reconcile_agent_mi e p agent_name model_deployment_name tool_mi =
                (Inr (ag_id existing),
                 [ListAgents, UpdateAgent (ag_id existing)
                    \<lparr> arg_name = Some agent_name, arg_description = Some description_mi,
                      arg_instructions = Some instructions_mi, arg_model = Some model_deployment_name,
                      arg_tools = Some [tool_mi] \<rparr>], p')) \<and>
        (\<exists>u p'. reconcile_agent_pat e p agent_name model_deployment_name tool_pat =
                (Inr u,
                 [ListAgents, UpdateAgent (ag_id existing)
                    \<lparr> arg_name = Some agent_name, arg_description = None,
                      arg_instructions = Some instructions_pat, arg_model = Some model_deployment_name,
                      arg_tools = Some [tool_pat] \<rparr>], p') \<and> ag_id u = ag_id existing))
     \<and>
     (register_databricks_openapi_tool_mi e1 p project_endpoint databricks_workspace_url agent_name
          model_deployment_name = (Inr i1, ev1, p1) \<and>
      register_databricks_openapi_tool_mi e2 p1 project_endpoint databricks_workspace_url agent_name
          model_deployment_name = (Inr i2, ev2, p2) \<longrightarrow>
        i1 = ag_id existing \<and> i2 = ag_id existing \<and> filter is_create ev2 = [] \<and>
        (\<exists>a. filter is_update ev2 = [UpdateAgent (ag_id existing) a]))
     \<and>
     (register_databricks_openapi_tool_pat e1 p project_endpoint databricks_workspace_url
          connection_name agent_name model_deployment_name subscription_id resource_group
          account_name project_name databricks_pat pat_lifetime_days pat_comment = (Inr j1, fv1, q1) \<and>
      register_databricks_openapi_tool_pat e2 q1 project_endpoint databricks_workspace_url
          connection_name agent_name model_deployment_name subscription_id resource_group
          account_name project_name databricks_pat pat_lifetime_days pat_comment = (Inr j2, fv2, q2) \<longrightarrow>
        j1 = ag_id existing \<and> j2 = ag_id existing \<and> filter is_create fv2 = [] \<and>
        (\<exists>a. filter is_update fv2 = [UpdateAgent (ag_id existing) a]))"
proof -
  have A: "list_agents_fault e = None \<and> update_agent_fault e = None \<longrightarrow>
        (\<exists>p'. reconcile_agent_mi e p agent_name model_deployment_name tool_mi =
                (Inr (ag_id existing),
                 [ListAgents, UpdateAgent (ag_id existing)
                    \<lparr> arg_name = Some agent_name, arg_description = Some description_mi,
                      arg_instructions = Some instructions_mi, arg_model = Some model_deployment_name,
                      arg_tools = Some [tool_mi] \<rparr>], p')) \<and>
        (\<exists>u p'. reconcile_agent_pat e p agent_name model_deployment_name tool_pat =
                (Inr u,
                 [ListAgents, UpdateAgent (ag_id existing)
                    \<lparr> arg_name = Some agent_name, arg_description = None,
                      arg_instructions = Some instructions_pat, arg_model = Some model_deployment_name,
                      arg_tools = Some [tool_pat] \<rparr>], p') \<and> ag_id u = ag_id existing)"
    using reconcile_agent_mi_update_path [OF assms, of e model_deployment_name tool_mi]
      reconcile_agent_pat_update_path [OF assms, of e model_deployment_name tool_pat]
    by blast
  have B: "register_databricks_openapi_tool_mi e1 p project_endpoint databricks_workspace_url agent_name
          model_deployment_name = (Inr i1, ev1, p1) \<and>
      register_databricks_openapi_tool_mi e2 p1 project_endpoint databricks_workspace_url agent_name
          model_deployment_name = (Inr i2, ev2, p2) \<longrightarrow>
        i1 = ag_id existing \<and> i2 = ag_id existing \<and> filter is_create ev2 = [] \<and>
        (\<exists>a. filter is_update ev2 = [UpdateAgent (ag_id existing) a])"
    using register_mi_twice [OF assms] by blast
  have C: "register_databricks_openapi_tool_pat e1 p project_endpoint databricks_workspace_url
          connection_name agent_name model_deployment_name subscription_id resource_group
          account_name project_name databricks_pat pat_lifetime_days pat_comment = (Inr j1, fv1, q1) \<and>
      register_databricks_openapi_tool_pat e2 q1 project_endpoint databricks_workspace_url
          connection_name agent_name model_deployment_name subscription_id resource_group
          account_name project_name databricks_pat pat_lifetime_days pat_comment = (Inr j2, fv2, q2) \<longrightarrow>
        j1 = ag_id existing \<and> j2 = ag_id existing \<and> filter is_create fv2 = [] \<and>
        (\<exists>a. filter is_update fv2 = [UpdateAgent (ag_id existing) a])"
    using register_pat_twice [OF assms] by blast
  show ?thesis by (rule conjI [OF A conjI [OF B C]])
qed

text \<open>Both scripts, run twice on the sample project, where the agent \<open>asst_42\<close>
  has the desired name.\<close>

theorem reconciliation_keeps_agent_identity_witness:
  "find (\<lambda>a. ag_name a = Some ''DatabricksVectorSearchAgent'') (agents sample_platform) = Some sample_agent \<and>
   list_agents_fault sample_env = None \<and> update_agent_fault sample_env = None \<and>
   (\<exists>p'. reconcile_agent_mi sample_env sample_platform ''DatabricksVectorSearchAgent'' ''gpt-4o''
            (tool_definition_mi sample_spec) =
          (Inr ''asst_42'',
           [ListAgents, UpdateAgent ''asst_42''
              \<lparr> arg_name = Some ''DatabricksVectorSearchAgent'', arg_description = Some description_mi,
                arg_instructions = Some instructions_mi, arg_model = Some ''gpt-4o'',
                arg_tools = Some [tool_definition_mi sample_spec] \<rparr>], p')) \<and>
   (\<exists>u p'. reconcile_agent_pat sample_env sample_platform ''DatabricksVectorSearchAgent'' ''gpt-4o''
            (openapi_tool_pat sample_spec ''/connections/c'') =
          (Inr u,
           [ListAgents, UpdateAgent ''asst_42''
              \<lparr> arg_name = Some ''DatabricksVectorSearchAgent'', arg_description = None,
                arg_instructions = Some instructions_pat, arg_model = Some ''gpt-4o'',
                arg_tools = Some [openapi_tool_pat sample_spec ''/connections/c''] \<rparr>], p') \<and>
          ag_id u = ''asst_42'') \<and>
   (\<exists>ev1 p1 ev2 p2.
      register_databricks_openapi_tool_mi sample_env sample_platform
        ''https://acct.services.ai.azure.com/api/projects/proj'' ''https://adb-1.azuredatabricks.net''
        ''DatabricksVectorSearchAgent'' ''gpt-4o'' = (Inr ''asst_42'', ev1, p1) \<and>
      register_databricks_openapi_tool_mi sample_env p1
        ''https://acct.services.ai.azure.com/api/projects/proj'' ''https://adb-1.azuredatabricks.net''
        ''DatabricksVectorSearchAgent'' ''gpt-4o'' = (Inr ''asst_42'', ev2, p2) \<and>
      filter is_create ev2 = [] \<and> (\<exists>a. filter is_update ev2 = [UpdateAgent ''asst_42'' a])) \<and>
   (\<exists>fv1 q1 fv2 q2.
      register_databricks_openapi_tool_pat sample_env sample_platform
        ''https://acct.services.ai.azure.com/api/projects/proj'' ''https://adb-1.azuredatabricks.net''
        ''databricks-pat-connection'' ''DatabricksVectorSearchAgent'' ''gpt-4o'' ''sub-1'' ''rg-1''
        ''acct'' ''proj'' None 90 ''AI Foundry Agent'' = (Inr ''asst_42'', fv1, q1) \<and>
      register_databricks_openapi_tool_pat sample_env q1
        ''https://acct.services.ai.azure.com/api/projects/proj'' ''https://adb-1.azuredatabricks.net''
        ''databricks-pat-connection'' ''DatabricksVectorSearchAgent'' ''gpt-4o'' ''sub-1'' ''rg-1''
        ''acct'' ''proj'' None 90 ''AI Foundry Agent'' = (Inr ''asst_42'', fv2, q2) \<and>
      filter is_create fv2 = [] \<and> (\<exists>a. filter is_update fv2 = [UpdateAgent ''asst_42'' a]))"
proof -
  let ?mi = "\<lambda>p. register_databricks_openapi_tool_mi sample_env p
        ''https://acct.services.ai.azure.com/api/projects/proj'' ''https://adb-1.azuredatabricks.net''
        ''DatabricksVectorSearchAgent'' ''gpt-4o''"
  let ?pat = "\<lambda>p. register_databricks_openapi_tool_pat sample_env p
        ''https://acct.services.ai.azure.com/api/projects/proj'' ''https://adb-1.azuredatabricks.net''
        ''databricks-pat-connection'' ''DatabricksVectorSearchAgent'' ''gpt-4o'' ''sub-1'' ''rg-1''
        ''acct'' ''proj'' None 90 ''AI Foundry Agent''"
  have m: "find (\<lambda>a. ag_name a = Some ''DatabricksVectorSearchAgent'') (agents sample_platform) = Some sample_agent"
    by (simp add: sample_platform_def sample_agent_def)
  have l: "list_agents_fault sample_env = None" and u: "update_agent_fault sample_env = None"
    by (simp_all add: sample_env_def)
  have i: "ag_id sample_agent = ''asst_42''" by (simp add: sample_agent_def)
  have "fst (?mi sample_platform) = Inr ''asst_42''"
    by (simp add: run_defs sample_defs)
  then obtain ev1 p1 where r1: "?mi sample_platform = (Inr ''asst_42'', ev1, p1)"
    by (cases "?mi sample_platform") auto
  have "fst (?mi (snd (snd (?mi sample_platform)))) = Inr ''asst_42''"
    by (simp add: run_defs sample_defs)
  with r1 obtain ev2 p2 where r2: "?mi p1 = (Inr ''asst_42'', ev2, p2)"
    by (cases "?mi p1") auto
  have "fst (?pat sample_platform) = Inr ''asst_42''"
    by (simp add: run_defs sample_defs)
  then obtain fv1 q1 where s1: "?pat sample_platform = (Inr ''asst_42'', fv1, q1)"
    by (cases "?pat sample_platform") auto
  have "fst (?pat (snd (snd (?pat sample_platform)))) = Inr ''asst_42''"
    by (simp add: run_defs sample_defs)
  with s1 obtain fv2 q2 where s2: "?pat q1 = (Inr ''asst_42'', fv2, q2)"
    by (cases "?pat q1") auto
  note t = reconciliation_keeps_agent_identity [OF m, where e = sample_env
      and model_deployment_name = "''gpt-4o''"
      and tool_mi = "tool_definition_mi sample_spec"
      and tool_pat = "openapi_tool_pat sample_spec ''/connections/c''"
      and ?e1.0 = sample_env and ?e2.0 = sample_env
      and project_endpoint = "''https://acct.services.ai.azure.com/api/projects/proj''"
      and databricks_workspace_url = "''https://adb-1.azuredatabricks.net''"
      and ?i1.0 = "''asst_42''" and ?ev1.0 = ev1 and ?p1.0 = p1
      and ?i2.0 = "''asst_42''" and ?ev2.0 = ev2 and ?p2.0 = p2
      and connection_name = "''databricks-pat-connection''" and subscription_id = "''sub-1''"
      and resource_group = "''rg-1''" and account_name = "''acct''" and project_name = "''proj''"
      and databricks_pat = None and pat_lifetime_days = 90 and pat_comment = "''AI Foundry Agent''"
      and ?j1.0 = "''asst_42''" and ?fv1.0 = fv1 and ?q1.0 = q1
      and ?j2.0 = "''asst_42''" and ?fv2.0 = fv2 and ?q2.0 = q2]
  from t l u r1 r2 s1 s2 i m show ?thesis
    by (simp del: filter.simps)
qed

text \<open>
  Claim C6, as the code has it. When the listing succeeds and an agent with the desired
  name exists, each reconciler issues one update call, for the first such agent. The
  managed-identity script passes name, description, instructions, tools and model. The
  PAT script passes name, model, instructions and tools and no description, in its update
  call as in its create call.
\<close>

theorem update_call_fields:
  assumes "find (\<lambda>a. ag_name a = Some agent_name) (agents p) = Some existing"
    and "list_agents_fault e = None"
  shows "update_calls (fst (snd (reconcile_agent_mi e p agent_name model_deployment_name tool_mi))) =
           [(ag_id existing,
             \<lparr> arg_name = Some agent_name, arg_description = Some description_mi,
               arg_instructions = Some instructions_mi, arg_model = Some model_deployment_name,
               arg_tools = Some [tool_mi] \<rparr>)] \<and>
         update_calls (fst (snd (reconcile_agent_pat e p agent_name model_deployment_name tool_pat))) =
           [(ag_id existing,
             \<lparr> arg_name = Some agent_name, arg_description = None,
               arg_instructions = Some instructions_pat, arg_model = Some model_deployment_name,
               arg_tools = Some [tool_pat] \<rparr>)]"
  using assms
  by (simp add: reconcile_agent_mi_def reconcile_agent_pat_def client_list_agents_def Let_def
           split: sum.splits prod.splits)

theorem update_call_fields_witness:
  "find (\<lambda>a. ag_name a = Some ''DatabricksVectorSearchAgent'') (agents sample_platform) = Some sample_agent \<and>
   list_agents_fault sample_env = None \<and>
   update_calls (fst (snd (reconcile_agent_mi sample_env sample_platform ''DatabricksVectorSearchAgent''
                             ''gpt-4o'' (tool_definition_mi sample_spec)))) =
     [(''asst_42'',
       \<lparr> arg_name = Some ''DatabricksVectorSearchAgent'', arg_description = Some description_mi,
         arg_instructions = Some instructions_mi, arg_model = Some ''gpt-4o'',
         arg_tools = Some [tool_definition_mi sample_spec] \<rparr>)] \<and>
   update_calls (fst (snd (reconcile_agent_pat sample_env sample_platform ''DatabricksVectorSearchAgent''
                             ''gpt-4o'' (openapi_tool_pat sample_spec ''/connections/c'')))) =
     [(''asst_42'',
       \<lparr> arg_name = Some ''DatabricksVectorSearchAgent'', arg_description = None,
         arg_instructions = Some instructions_pat, arg_model = Some ''gpt-4o'',
         arg_tools = Some [openapi_tool_pat sample_spec ''/connections/c''] \<rparr>)]"
proof -
  have m: "find (\<lambda>a. ag_name a = Some ''DatabricksVectorSearchAgent'') (agents sample_platform) = Some sample_agent"
    by (simp add: sample_platform_def sample_agent_def)
  have l: "list_agents_fault sample_env = None" by (simp add: sample_env_def)
  have i: "ag_id sample_agent = ''asst_42''" by (simp add: sample_agent_def)
  from update_call_fields [OF m l, of "''gpt-4o''" "tool_definition_mi sample_spec"
        "openapi_tool_pat sample_spec ''/connections/c''"] m l i
  show ?thesis by simp
qed

text \<open>
  Claim C6 as stated fails for the PAT script: on the sample project its update call
  carries no description.
\<close>

theorem pat_update_passes_no_description:
  "map (arg_description \<circ> snd)
     (update_calls (fst (snd (reconcile_agent_pat sample_env sample_platform
        ''DatabricksVectorSearchAgent'' ''gpt-4o'' (openapi_tool_pat sample_spec ''/connections/c''))))) = [None]"
  by (simp add: reconcile_agent_pat_def client_list_agents_def client_update_agent_def
        overwrite_fields_def sample_env_def sample_platform_def sample_agent_def Let_def)

section \<open>Customizing the specification: the value returned\<close>

lemma update_fixed_lookup: "AList.update k v al = al \<Longrightarrow> map_of al k = Some v"
proof -
  assume "AList.update k v al = al"
  then have "map_of al = (map_of al)(k \<mapsto> v)" by (metis AList.update_conv')
  then show ?thesis by (metis fun_upd_same)
qed

lemma py_setitem_Inr:
  "py_setitem c k v = Inr c' \<Longrightarrow> \<exists>kvs. c = JObj kvs \<and> c' = JObj (AList.update k v kvs)"
  by (cases c) auto

lemma py_getitem_Inr:
  "py_getitem c k = Inr v \<Longrightarrow> \<exists>kvs. c = JObj kvs \<and> map_of kvs k = Some v"
  by (cases c) (auto split: option.splits)

lemma py_setitem_in: "py_setitem c k v = Inr c' \<Longrightarrow> py_in k c' = Inr True"
  by (auto dest!: py_setitem_Inr simp: AList.update_conv')

lemma py_setitem_idem: "py_setitem c k v = Inr c' \<Longrightarrow> py_setitem c' k v = Inr c'"
  by (auto dest!: py_setitem_Inr)

lemma set_first_server_url_Inr:
  "set_first_server_url servers url = Inr servers' \<Longrightarrow>
   \<exists>m xs. servers = JArr (JObj m # xs) \<and> servers' = JArr (JObj (AList.update ''url'' (JStr url) m) # xs)"
  by (cases servers rule: py_first.cases)
     (auto simp: set_first_server_url_def dest!: py_setitem_Inr split: sum.splits)

lemma set_first_server_url_idem:
  "set_first_server_url servers url = Inr servers' \<Longrightarrow> set_first_server_url servers' url = Inr servers'"
  by (drule set_first_server_url_Inr) (auto simp: set_first_server_url_def)

lemma set_first_server_url_len:
  "set_first_server_url servers url = Inr servers' \<Longrightarrow> py_len servers' = py_len servers"
  by (drule set_first_server_url_Inr) auto

text \<open>What a successful run of lines 223 to 225 did: nothing, or a change under
  \<open>servers\<close>.\<close>

lemma update_server_url_Inr:
  assumes "update_server_url d url = Inr d1"
  shows "d1 = d \<and> (py_in ''servers'' d = Inr False \<or>
                   (\<exists>servers. py_getitem d ''servers'' = Inr servers \<and> py_len servers = Inr 0))
         \<or> (\<exists>kvs servers servers' n. d = JObj kvs \<and> map_of kvs ''servers'' = Some servers \<and>
               py_len servers = Inr n \<and> n > 0 \<and>
               set_first_server_url servers url = Inr servers' \<and>
               d1 = JObj (AList.update ''servers'' servers' kvs))"
  using assms
  by (auto simp: update_server_url_def split: sum.splits bool.splits if_splits
           dest!: py_getitem_Inr py_setitem_Inr)

lemma update_server_url_idem:
  assumes "update_server_url d url = Inr d1"
  shows "update_server_url d1 url = Inr d1"
  using update_server_url_Inr [OF assms]
proof (elim disjE conjE exE)
  assume "d1 = d" "py_in ''servers'' d = Inr False"
  then show ?thesis by (simp add: update_server_url_def)
next
  fix servers
  assume "d1 = d" "py_getitem d ''servers'' = Inr servers" "py_len servers = Inr 0"
  with assms show ?thesis by simp
next
  fix kvs servers servers' n
  assume d: "d = JObj kvs" and "map_of kvs ''servers'' = Some servers"
    and n: "py_len servers = Inr n" "n > 0"
    and s: "set_first_server_url servers url = Inr servers'"
    and d1: "d1 = JObj (AList.update ''servers'' servers' kvs)"
  have "py_len servers' = Inr n" using set_first_server_url_len [OF s] n by simp
  then show ?thesis
    using n set_first_server_url_idem [OF s] d1
    by (simp add: update_server_url_def AList.update_conv')
qed

lemma update_server_url_fixed_cong:
  assumes "update_server_url (JObj kvs) url = Inr (JObj kvs)"
    and "map_of kvs' ''servers'' = map_of kvs ''servers''"
  shows "update_server_url (JObj kvs') url = Inr (JObj kvs')"
  using update_server_url_Inr [OF assms(1)]
proof (elim disjE conjE exE)
  assume "py_in ''servers'' (JObj kvs) = Inr False"
  with assms(2) show ?thesis by (simp add: update_server_url_def)
next
  fix servers
  assume "py_getitem (JObj kvs) ''servers'' = Inr servers" "py_len servers = Inr 0"
  with assms(2) show ?thesis by (auto simp: update_server_url_def split: option.splits)
next
  fix kvs0 servers servers' n
  assume d: "JObj kvs = JObj kvs0" and l: "map_of kvs0 ''servers'' = Some servers"
    and n: "py_len servers = Inr n" "n > 0"
    and s: "set_first_server_url servers url = Inr servers'"
    and d1: "JObj kvs = JObj (AList.update ''servers'' servers' kvs0)"
  from d d1 have "AList.update ''servers'' servers' kvs = kvs" by simp
  then have "map_of kvs ''servers'' = Some servers'" by (rule update_fixed_lookup)
  with l d have "servers' = servers" by simp
  with s assms(2) l d n show ?thesis
    by (simp add: update_server_url_def AList.update_triv)
qed

lemma has_security_schemes_dict:
  "has_security_schemes (JObj kvs) \<longleftrightarrow>
     (\<exists>c. map_of kvs ''components'' = Some c \<and> py_in ''securitySchemes'' c = Inr True)"
  by (cases "map_of kvs ''components''") (simp_all add: has_security_schemes_def)

lemma update_security_schemes_Inr:
  assumes "update_security_schemes d = Inr d2"
  shows "d2 = d \<and> \<not> has_security_schemes d
         \<or> (\<exists>kvs components components'. d = JObj kvs \<and> map_of kvs ''components'' = Some components \<and>
               py_in ''securitySchemes'' components = Inr True \<and>
               py_setitem components ''securitySchemes'' bearer_scheme = Inr components' \<and>
               d2 = JObj (AList.update ''components'' components' kvs))"
  using assms
  by (auto simp: update_security_schemes_def has_security_schemes_def
           split: sum.splits bool.splits dest!: py_getitem_Inr py_setitem_Inr)

lemma update_security_schemes_idem:
  assumes "update_security_schemes d = Inr d2"
  shows "update_security_schemes d2 = Inr d2"
  using update_security_schemes_Inr [OF assms]
proof (elim disjE conjE exE)
  assume "d2 = d" "\<not> has_security_schemes d"
  with assms show ?thesis by simp
next
  fix kvs components components'
  assume "d = JObj kvs"
    and s: "py_setitem components ''securitySchemes'' bearer_scheme = Inr components'"
    and d2: "d2 = JObj (AList.update ''components'' components' kvs)"
  then show ?thesis
    using py_setitem_in [OF s] py_setitem_idem [OF s]
    by (simp add: update_security_schemes_def AList.update_conv')
qed

lemma update_security_schemes_fixed_cong:
  assumes "update_security_schemes (JObj kvs) = Inr (JObj kvs)"
    and "map_of kvs' ''components'' = map_of kvs ''components''"
  shows "update_security_schemes (JObj kvs') = Inr (JObj kvs')"
proof (cases "map_of kvs ''components''")
  case None
  with assms(2) show ?thesis by (simp add: update_security_schemes_def)
next
  case (Some components)
  from assms(1) Some obtain b where b: "py_in ''securitySchemes'' components = Inr b"
    by (auto simp: update_security_schemes_def split: sum.splits)
  show ?thesis
  proof (cases b)
    case False
    with assms(2) Some b show ?thesis by (simp add: update_security_schemes_def)
  next
    case True
    with assms(1) Some b obtain components' where
      s: "py_setitem components ''securitySchemes'' bearer_scheme = Inr components'" and
      "AList.update ''components'' components' kvs = kvs"
      by (auto simp: update_security_schemes_def split: sum.splits)
    then have "map_of kvs ''components'' = Some components'" by (simp add: update_fixed_lookup)
    with Some have "components' = components" by simp
    with s assms(2) Some b True show ?thesis
      by (simp add: update_security_schemes_def AList.update_triv)
  qed
qed

lemma update_server_url_dict:
  "update_server_url d url = Inr (JObj kvs1) \<Longrightarrow>
   \<exists>kvs. d = JObj kvs \<and> (\<forall>k. k \<noteq> ''servers'' \<longrightarrow> map_of kvs1 k = map_of kvs k)"
  by (drule update_server_url_Inr) (auto simp: AList.update_conv')

lemma update_security_schemes_dict:
  "update_security_schemes d = Inr (JObj kvs2) \<Longrightarrow>
   \<exists>kvs. d = JObj kvs \<and> (\<forall>k. k \<noteq> ''components'' \<longrightarrow> map_of kvs2 k = map_of kvs k)"
  by (drule update_security_schemes_Inr) (auto simp: AList.update_conv')

lemma py_copy_Inr: "py_copy d = Inr c \<Longrightarrow> c = d"
  by (cases d) auto

lemma py_copy_dict: "py_copy (JObj kvs) = Inr (JObj kvs)"
  by simp

lemma customize_pat_steps:
  assumes "customize_openapi_spec_for_workspace_pat d url = Inr d'"
  shows "\<exists>kvs kvs1 kvs2. d = JObj kvs \<and>
           update_server_url (JObj kvs) url = Inr (JObj kvs1) \<and>
           update_security_schemes (JObj kvs1) = Inr (JObj kvs2) \<and>
           d' = JObj (AList.update ''security'' bearer_requirement kvs2)"
proof -
  from assms obtain c d1 d2 where
    c: "py_copy d = Inr c" and
    a: "update_server_url c url = Inr d1" and
    b: "update_security_schemes d1 = Inr d2" and
    s: "py_setitem d2 ''security'' bearer_requirement = Inr d'"
    by (auto simp: customize_openapi_spec_for_workspace_pat_def split: sum.splits)
  from py_setitem_Inr [OF s] obtain kvs2 where
    d2: "d2 = JObj kvs2" and d': "d' = JObj (AList.update ''security'' bearer_requirement kvs2)"
    by blast
  from update_security_schemes_dict b d2 obtain kvs1 where d1: "d1 = JObj kvs1" by blast
  from update_server_url_dict a d1 obtain kvs where "c = JObj kvs" by blast
  with py_copy_Inr [OF c] a b d1 d2 d' show ?thesis by auto
qed

lemma customize_pat_idem:
  assumes "customize_openapi_spec_for_workspace_pat d url = Inr d'"
  shows "customize_openapi_spec_for_workspace_pat d' url = Inr d'"
proof -
  from customize_pat_steps [OF assms] obtain kvs kvs1 kvs2 where
    a: "update_server_url (JObj kvs) url = Inr (JObj kvs1)" and
    b: "update_security_schemes (JObj kvs1) = Inr (JObj kvs2)" and
    d': "d' = JObj (AList.update ''security'' bearer_requirement kvs2)"
    by blast
  let ?kvs3 = "AList.update ''security'' bearer_requirement kvs2"
  from update_security_schemes_dict [OF b]
  have k12: "\<forall>k. k \<noteq> ''components'' \<longrightarrow> map_of kvs2 k = map_of kvs1 k" by simp
  have s3: "map_of ?kvs3 ''servers'' = map_of kvs1 ''servers''"
    using k12 by (simp add: AList.update_conv')
  have c3: "map_of ?kvs3 ''components'' = map_of kvs2 ''components''"
    by (simp add: AList.update_conv')
  from update_server_url_fixed_cong [OF update_server_url_idem [OF a] s3]
  have 1: "update_server_url d' url = Inr d'" using d' by simp
  from update_security_schemes_fixed_cong [OF update_security_schemes_idem [OF b] c3]
  have 2: "update_security_schemes d' = Inr d'" using d' by simp
  from 1 2 d' show ?thesis
    by (simp add: customize_openapi_spec_for_workspace_pat_def)
qed

lemma customize_mi_idem:
  assumes "customize_openapi_spec_for_workspace_mi d url = Inr d'"
  shows "customize_openapi_spec_for_workspace_mi d' url = Inr d'"
proof -
  from assms obtain c where c: "py_copy d = Inr c" and a: "update_server_url c url = Inr d'"
    by (auto simp: customize_openapi_spec_for_workspace_mi_def split: sum.splits)
  from py_copy_Inr [OF c] c have "py_copy d = Inr d" by simp
  moreover from update_server_url_Inr [OF a] py_copy_Inr [OF c]
  have "d' = d \<or> (\<exists>kvs. d' = JObj kvs)" by auto
  ultimately have "py_copy d' = Inr d'" by auto
  with update_server_url_idem [OF a] show ?thesis
    by (simp add: customize_openapi_spec_for_workspace_mi_def)
qed

lemma pat_customization_security:
  assumes "customize_openapi_spec_for_workspace_pat d url = Inr d'"
  shows "\<exists>kvs kvs'. d = JObj kvs \<and> d' = JObj kvs' \<and>
           map_of kvs' ''security'' = Some (JArr [JObj [(''bearerAuth'', JArr [])]]) \<and>
           (\<not> has_security_schemes d \<longrightarrow>
              map_of kvs' ''components'' = map_of kvs ''components'' \<and>
              \<not> scheme_declared ''bearerAuth'' d')"
proof -
  from customize_pat_steps [OF assms] obtain kvs kvs1 kvs2 where
    d: "d = JObj kvs" and
    a: "update_server_url (JObj kvs) url = Inr (JObj kvs1)" and
    b: "update_security_schemes (JObj kvs1) = Inr (JObj kvs2)" and
    d': "d' = JObj (AList.update ''security'' bearer_requirement kvs2)"
    by blast
  let ?kvs' = "AList.update ''security'' bearer_requirement kvs2"
  from update_server_url_dict [OF a]
  have c1: "map_of kvs1 ''components'' = map_of kvs ''components''" by simp
  have sec: "map_of ?kvs' ''security'' = Some (JArr [JObj [(''bearerAuth'', JArr [])]])"
    by (simp add: AList.update_conv' bearer_requirement_def)
  have rest: "map_of ?kvs' ''components'' = map_of kvs ''components'' \<and> \<not> scheme_declared ''bearerAuth'' d'"
    if n: "\<not> has_security_schemes d"
  proof -
    from n d c1 have "\<not> has_security_schemes (JObj kvs1)"
      by (simp add: has_security_schemes_dict)
    with update_security_schemes_Inr [OF b] have "kvs2 = kvs1"
      by (auto simp: has_security_schemes_dict)
    with c1 have c': "map_of ?kvs' ''components'' = map_of kvs ''components''"
      by (simp add: AList.update_conv')
    have "\<not> scheme_declared ''bearerAuth'' d'"
      using n d c' d'
      by (auto simp: has_security_schemes_dict scheme_declared_def split: option.splits json.splits)
    with c' show ?thesis by simp
  qed
  from d d' sec rest show ?thesis by blast
qed

section \<open>Customizing the specification: the objects\<close>

text \<open>Reading a value touches only the cells it occupies, so a store that agrees on
  them gives the same document.\<close>

lemma addrs_bound:
  "denotes h v j \<Longrightarrow> a \<in> set (addrs h v j) \<Longrightarrow> a < length h"
  "denotes_list h vs js \<Longrightarrow> a \<in> set (addrs_list h vs js) \<Longrightarrow> a < length h"
  "denotes_items h items kvs \<Longrightarrow> a \<in> set (addrs_items h items kvs) \<Longrightarrow> a < length h"
  by (induction h v j and h vs js and h items kvs rule: denotes_denotes_list_denotes_items.induct)
     (auto simp: deref_def split: pyval.splits pyobj.splits option.splits list.splits if_splits)

lemma frame:
  "denotes h v j \<Longrightarrow> (\<And>a. a \<in> set (addrs h v j) \<Longrightarrow> deref h' a = deref h a) \<Longrightarrow>
     denotes h' v j \<and> addrs h' v j = addrs h v j"
  "denotes_list h vs js \<Longrightarrow> (\<And>a. a \<in> set (addrs_list h vs js) \<Longrightarrow> deref h' a = deref h a) \<Longrightarrow>
     denotes_list h' vs js \<and> addrs_list h' vs js = addrs_list h vs js"
  "denotes_items h items kvs \<Longrightarrow> (\<And>a. a \<in> set (addrs_items h items kvs) \<Longrightarrow> deref h' a = deref h a) \<Longrightarrow>
     denotes_items h' items kvs \<and> addrs_items h' items kvs = addrs_items h items kvs"
proof (induction h v j and h vs js and h items kvs rule: denotes_denotes_list_denotes_items.induct)
  case (6 h v xs)
  then show ?case by (auto split: pyval.splits pyobj.splits option.splits)
next
  case (7 h v kvs)
  then show ?case by (auto split: pyval.splits pyobj.splits option.splits)
next
  case (9 h vs x xs)
  then show ?case by (auto split: list.splits)
next
  case (11 h items k x kvs)
  then show ?case by (auto split: list.splits)
qed auto

lemma deref_append: "a < length h \<Longrightarrow> deref (h @ xs) a = deref h a"
  by (simp add: deref_def nth_append)

lemma frame_append:
  assumes "denotes h v j"
  shows "denotes (h @ xs) v j" and "addrs (h @ xs) v j = addrs h v j"
proof -
  have "\<And>a. a \<in> set (addrs h v j) \<Longrightarrow> deref (h @ xs) a = deref h a"
    using addrs_bound(1) [OF assms] by (simp add: deref_append)
  from frame(1) [OF assms this] show "denotes (h @ xs) v j" and "addrs (h @ xs) v j = addrs h v j"
    by simp_all
qed

lemma frame_append_list:
  assumes "denotes_list h vs js"
  shows "denotes_list (h @ xs) vs js" and "addrs_list (h @ xs) vs js = addrs_list h vs js"
proof -
  have "\<And>a. a \<in> set (addrs_list h vs js) \<Longrightarrow> deref (h @ xs) a = deref h a"
    using addrs_bound(2) [OF assms] by (simp add: deref_append)
  from frame(2) [OF assms this]
  show "denotes_list (h @ xs) vs js" and "addrs_list (h @ xs) vs js = addrs_list h vs js"
    by simp_all
qed

lemma frame_append_items:
  assumes "denotes_items h items kvs"
  shows "denotes_items (h @ xs) items kvs" and "addrs_items (h @ xs) items kvs = addrs_items h items kvs"
proof -
  have "\<And>a. a \<in> set (addrs_items h items kvs) \<Longrightarrow> deref (h @ xs) a = deref h a"
    using addrs_bound(3) [OF assms] by (simp add: deref_append)
  from frame(3) [OF assms this]
  show "denotes_items (h @ xs) items kvs" and "addrs_items (h @ xs) items kvs = addrs_items h items kvs"
    by simp_all
qed

lemma build_tree:
  "build j h = (v, h') \<Longrightarrow>
     (\<exists>xs. h' = h @ xs) \<and> denotes h' v j \<and> distinct (addrs h' v j) \<and>
     (\<forall>a\<in>set (addrs h' v j). length h \<le> a)"
  "build_list js h = (vs, h') \<Longrightarrow>
     (\<exists>xs. h' = h @ xs) \<and> denotes_list h' vs js \<and> distinct (addrs_list h' vs js) \<and>
     (\<forall>a\<in>set (addrs_list h' vs js). length h \<le> a)"
  "build_items kvs h = (items, h') \<Longrightarrow>
     (\<exists>xs. h' = h @ xs) \<and> denotes_items h' items kvs \<and> distinct (addrs_items h' items kvs) \<and>
     (\<forall>a\<in>set (addrs_items h' items kvs). length h \<le> a)"
proof (induction j h and js h and kvs h arbitrary: v h' and vs h' and items h'
       rule: build_build_list_build_items.induct)
  case (6 xs h)
  from "6.prems" obtain vs h1 where b: "build_list xs h = (vs, h1)"
    and v: "v = VRef (length h1)" and h': "h' = h1 @ [OList vs]"
    by (auto simp: alloc_def split: prod.splits)
  from "6.IH" [OF b] obtain ys where h1: "h1 = h @ ys" and d: "denotes_list h1 vs xs"
    and dist: "distinct (addrs_list h1 vs xs)" and lo: "\<forall>a\<in>set (addrs_list h1 vs xs). length h \<le> a"
    by blast
  from frame_append_list [OF d, of "[OList vs]"]
  have d': "denotes_list h' vs xs" and a': "addrs_list h' vs xs = addrs_list h1 vs xs"
    by (simp_all add: h')
  have nin: "length h1 \<notin> set (addrs_list h1 vs xs)"
    using addrs_bound(2) [OF d] by auto
  show ?case
    using h1 d' a' dist lo nin by (auto simp: v h' deref_def)
next
  case (7 kvs h)
  from "7.prems" obtain items h1 where b: "build_items kvs h = (items, h1)"
    and v: "v = VRef (length h1)" and h': "h' = h1 @ [ODict items]"
    by (auto simp: alloc_def split: prod.splits)
  from "7.IH" [OF b] obtain ys where h1: "h1 = h @ ys" and d: "denotes_items h1 items kvs"
    and dist: "distinct (addrs_items h1 items kvs)" and lo: "\<forall>a\<in>set (addrs_items h1 items kvs). length h \<le> a"
    by blast
  from frame_append_items [OF d, of "[ODict items]"]
  have d': "denotes_items h' items kvs" and a': "addrs_items h' items kvs = addrs_items h1 items kvs"
    by (simp_all add: h')
  have nin: "length h1 \<notin> set (addrs_items h1 items kvs)"
    using addrs_bound(3) [OF d] by auto
  show ?case
    using h1 d' a' dist lo nin by (auto simp: v h' deref_def)
next
  case (9 x xs h)
  from "9.prems" obtain v1 h1 vs1 where b1: "build x h = (v1, h1)"
    and b2: "build_list xs h1 = (vs1, h')" and vs: "vs = v1 # vs1"
    by (auto split: prod.splits)
  from "9.IH"(1) [OF b1] obtain ys where h1: "h1 = h @ ys" and d1: "denotes h1 v1 x"
    and dist1: "distinct (addrs h1 v1 x)" and lo1: "\<forall>a\<in>set (addrs h1 v1 x). length h \<le> a"
    by blast
  from "9.IH"(2) [OF b1 [symmetric] b2] obtain zs where h2: "h' = h1 @ zs" and d2: "denotes_list h' vs1 xs"
    and dist2: "distinct (addrs_list h' vs1 xs)" and lo2: "\<forall>a\<in>set (addrs_list h' vs1 xs). length h1 \<le> a"
    by blast
  from frame_append [OF d1, of zs] have d1': "denotes h' v1 x" and a1: "addrs h' v1 x = addrs h1 v1 x"
    by (simp_all add: h2)
  have "\<forall>a\<in>set (addrs h1 v1 x). a < length h1" using addrs_bound(1) [OF d1] by blast
  with lo2 a1 have disj: "set (addrs h' v1 x) \<inter> set (addrs_list h' vs1 xs) = {}" by fastforce
  show ?case
    using h1 h2 d1' d2 a1 dist1 dist2 disj lo1 lo2 by (auto simp: vs)
next
  case (11 k x kvs h)
  from "11.prems" obtain v1 h1 items1 where b1: "build x h = (v1, h1)"
    and b2: "build_items kvs h1 = (items1, h')" and vs: "items = (k, v1) # items1"
    by (auto split: prod.splits)
  from "11.IH"(1) [OF b1] obtain ys where h1: "h1 = h @ ys" and d1: "denotes h1 v1 x"
    and dist1: "distinct (addrs h1 v1 x)" and lo1: "\<forall>a\<in>set (addrs h1 v1 x). length h \<le> a"
    by blast
  from "11.IH"(2) [OF b1 [symmetric] b2] obtain zs where h2: "h' = h1 @ zs" and d2: "denotes_items h' items1 kvs"
    and dist2: "distinct (addrs_items h' items1 kvs)" and lo2: "\<forall>a\<in>set (addrs_items h' items1 kvs). length h1 \<le> a"
    by blast
  from frame_append [OF d1, of zs] have d1': "denotes h' v1 x" and a1: "addrs h' v1 x = addrs h1 v1 x"
    by (simp_all add: h2)
  have "\<forall>a\<in>set (addrs h1 v1 x). a < length h1" using addrs_bound(1) [OF d1] by blast
  with lo2 a1 have disj: "set (addrs h' v1 x) \<inter> set (addrs_items h' items1 kvs) = {}" by fastforce
  show ?case
    using h1 h2 d1' d2 a1 dist1 dist2 disj lo1 lo2 by (auto simp: vs)
qed auto

lemma build_is_tree: "build j h = (v, h') \<Longrightarrow> tree h' v j"
  using build_tree(1) by (simp add: tree_def)

lemma denotes_items_keys: "denotes_items h items kvs \<Longrightarrow> map fst items = map fst kvs"
  by (induction kvs arbitrary: items) (auto split: list.splits)

lemma denotes_items_length: "denotes_items h items kvs \<Longrightarrow> length items = length kvs"
  by (drule denotes_items_keys) (metis length_map)

lemma denotes_list_length: "denotes_list h vs xs \<Longrightarrow> length vs = length xs"
  by (induction xs arbitrary: vs) (auto split: list.splits)

lemma denotes_items_None:
  "denotes_items h items kvs \<Longrightarrow> (map_of items k = None) = (map_of kvs k = None)"
  by (drule denotes_items_keys) (metis map_of_eq_None_iff set_map)

lemma denotes_items_Some:
  "denotes_items h items kvs \<Longrightarrow> (\<exists>y. map_of items k = Some y) = (\<exists>y. map_of kvs k = Some y)"
  using denotes_items_None [of h items kvs k] by (simp only: not_None_eq [symmetric])

lemma denotes_items_lookup:
  "denotes_items h items kvs \<Longrightarrow> map_of kvs k = Some j \<Longrightarrow>
   \<exists>v. map_of items k = Some v \<and> denotes h v j \<and> set (addrs h v j) \<subseteq> set (addrs_items h items kvs)"
proof (induction kvs arbitrary: items)
  case Nil
  then show ?case by simp
next
  case (Cons p kvs)
  obtain k0 j0 where p: "p = (k0, j0)" by (cases p)
  from Cons.prems(1) p obtain v0 items' where items: "items = (k0, v0) # items'"
    and d0: "denotes h v0 j0" and rest: "denotes_items h items' kvs"
    by (auto split: list.splits)
  show ?case
  proof (cases "k0 = k")
    case True
    with Cons.prems(2) p items d0 show ?thesis by auto
  next
    case False
    with Cons.prems(2) p have "map_of kvs k = Some j" by simp
    from Cons.IH [OF rest this] obtain v where
      "map_of items' k = Some v" "denotes h v j" "set (addrs h v j) \<subseteq> set (addrs_items h items' kvs)"
      by blast
    with False p items show ?thesis by auto
  qed
qed

lemma denotes_VStr: "denotes h (VStr k) x \<Longrightarrow> x = JStr k"
  by (cases x) auto

lemma denotes_list_mem: "denotes_list h vs xs \<Longrightarrow> (VStr k \<in> set vs) = (JStr k \<in> set xs)"
proof (induction xs arbitrary: vs)
  case Nil
  then show ?case by simp
next
  case (Cons x xs)
  from Cons.prems obtain v vs' where vs: "vs = v # vs'" and d: "denotes h v x"
    and rest: "denotes_list h vs' xs"
    by (auto split: list.splits)
  have "(v = VStr k) = (x = JStr k)"
    using d denotes_VStr [of h k x] by auto
  with Cons.IH [OF rest] vs show ?case by auto
qed

lemma store_in_refines: "denotes h v j \<Longrightarrow> store_in k v h = py_in k j"
  by (cases j)
     (auto simp: store_in_def denotes_items_Some denotes_list_mem
           split: pyval.splits option.splits pyobj.splits)

lemma store_len_refines: "denotes h v j \<Longrightarrow> store_len v h = py_len j"
  by (cases j)
     (auto simp: store_len_def denotes_items_length denotes_list_length
           split: pyval.splits option.splits pyobj.splits)

lemma denotes_items_update:
  "denotes_items h items kvs \<Longrightarrow> denotes h x jx \<Longrightarrow>
   denotes_items h (AList.update k x items) (AList.update k jx kvs)"
  by (induction kvs arbitrary: items) (auto split: list.splits)

lemma addrs_items_update:
  "denotes_items h items kvs \<Longrightarrow>
   set (addrs_items h (AList.update k x items) (AList.update k jx kvs))
     \<subseteq> set (addrs_items h items kvs) \<union> set (addrs h x jx)"
proof (induction kvs arbitrary: items)
  case Nil
  then show ?case by simp
next
  case (Cons p kvs)
  obtain k0 j0 where p: "p = (k0, j0)" by (cases p)
  from Cons.prems(1) p obtain v0 items' where items: "items = (k0, v0) # items'"
    and rest: "denotes_items h items' kvs"
    by (auto split: list.splits)
  show ?case
  proof (cases "k0 = k")
    case True
    with p items show ?thesis by auto
  next
    case False
    with Cons.IH [OF rest] p items show ?thesis by auto
  qed
qed

lemma distinct_addrs_items_update:
  "denotes_items h items kvs \<Longrightarrow> distinct (addrs_items h items kvs) \<Longrightarrow>
   distinct (addrs h x jx) \<Longrightarrow> set (addrs h x jx) \<inter> set (addrs_items h items kvs) = {} \<Longrightarrow>
   distinct (addrs_items h (AList.update k x items) (AList.update k jx kvs))"
proof (induction kvs arbitrary: items)
  case Nil
  then show ?case by simp
next
  case (Cons p kvs)
  obtain k0 j0 where p: "p = (k0, j0)" by (cases p)
  from Cons.prems(1) p obtain v0 items' where items: "items = (k0, v0) # items'"
    and d0: "denotes h v0 j0" and rest: "denotes_items h items' kvs"
    by (auto split: list.splits)
  show ?case
  proof (cases "k0 = k")
    case True
    with Cons.prems p items show ?thesis by auto
  next
    case False
    from Cons.prems p items have
      "distinct (addrs_items h items' kvs)" "set (addrs h x jx) \<inter> set (addrs_items h items' kvs) = {}"
      by auto
    from Cons.IH [OF rest this(1) Cons.prems(3) this(2)]
    have "distinct (addrs_items h (AList.update k x items') (AList.update k jx kvs))" .
    moreover from addrs_items_update [OF rest, of k x jx]
    have "set (addrs_items h (AList.update k x items') (AList.update k jx kvs))
            \<subseteq> set (addrs_items h items' kvs) \<union> set (addrs h x jx)" .
    ultimately show ?thesis
      using Cons.prems p items False by auto
  qed
qed

text \<open>Assigning to a key of the dict at the root of a tree.\<close>

lemma dict_setitem_tree:
  assumes t: "tree h (VRef a) (JObj kvs)"
    and a: "deref h a = Some (ODict items)"
    and x: "denotes h x jx" "distinct (addrs h x jx)"
    and disj: "set (addrs h x jx) \<inter> set (addrs h (VRef a) (JObj kvs)) = {}"
  shows "tree (h[a := ODict (AList.update k x items)]) (VRef a) (JObj (AList.update k jx kvs))"
    and "set (addrs (h[a := ODict (AList.update k x items)]) (VRef a) (JObj (AList.update k jx kvs)))
           \<subseteq> set (addrs h (VRef a) (JObj kvs)) \<union> set (addrs h x jx)"
proof -
  let ?h = "h[a := ODict (AList.update k x items)]"
  from t a have di: "denotes_items h items kvs" and dist: "distinct (addrs_items h items kvs)"
    and nin: "a \<notin> set (addrs_items h items kvs)"
    by (auto simp: tree_def)
  from a have al: "a < length h" by (auto simp: deref_def split: if_splits)
  from disj a have nx: "a \<notin> set (addrs h x jx)" by auto
  have same: "deref ?h b = deref h b" if "b \<noteq> a" for b
    using that by (simp add: deref_def)
  have "deref ?h b = deref h b" if "b \<in> set (addrs_items h items kvs)" for b
    using that nin same by metis
  from frame(3) [OF di this]
  have fi: "denotes_items ?h items kvs \<and> addrs_items ?h items kvs = addrs_items h items kvs"
    by simp
  have "deref ?h b = deref h b" if "b \<in> set (addrs h x jx)" for b
    using that nx same by metis
  from frame(1) [OF x(1) this]
  have fx: "denotes ?h x jx \<and> addrs ?h x jx = addrs h x jx"
    by simp
  have da: "deref ?h a = Some (ODict (AList.update k x items))"
    using al by (simp add: deref_def)
  from fi fx have d': "denotes_items ?h (AList.update k x items) (AList.update k jx kvs)"
    by (simp add: denotes_items_update)
  from fi fx disj a dist x(2)
  have dist': "distinct (addrs_items ?h (AList.update k x items) (AList.update k jx kvs))"
    by (intro distinct_addrs_items_update) auto
  from addrs_items_update [of ?h items kvs k x jx] fi fx
  have sub: "set (addrs_items ?h (AList.update k x items) (AList.update k jx kvs))
               \<subseteq> set (addrs_items h items kvs) \<union> set (addrs h x jx)"
    by simp
  with nin nx have "a \<notin> set (addrs_items ?h (AList.update k x items) (AList.update k jx kvs))"
    by auto
  with d' dist' da show "tree ?h (VRef a) (JObj (AList.update k jx kvs))"
    by (simp add: tree_def)
  from sub da a show "set (addrs ?h (VRef a) (JObj (AList.update k jx kvs)))
           \<subseteq> set (addrs h (VRef a) (JObj kvs)) \<union> set (addrs h x jx)"
    by auto
qed

lemma store_getitem_refines:
  assumes "denotes h v j"
  shows "case py_getitem j k of
           Inl err \<Rightarrow> store_getitem v k h = Inl err
         | Inr jx \<Rightarrow> (\<exists>x. store_getitem v k h = Inr x \<and> denotes h x jx \<and>
                          set (addrs h x jx) \<subseteq> set (addrs h v j))"
proof (cases j)
  case (JObj kvs)
  with assms obtain a items where v: "v = VRef a" and a: "deref h a = Some (ODict items)"
    and di: "denotes_items h items kvs"
    by (auto split: pyval.splits option.splits pyobj.splits)
  show ?thesis
  proof (cases "map_of kvs k")
    case None
    with denotes_items_None [OF di, of k] JObj v a show ?thesis
      by (simp add: store_getitem_def)
  next
    case (Some jx)
    from denotes_items_lookup [OF di Some] obtain x where
      "map_of items k = Some x" "denotes h x jx" "set (addrs h x jx) \<subseteq> set (addrs_items h items kvs)"
      by blast
    with Some JObj v a show ?thesis
      by (auto simp: store_getitem_def)
  qed
qed (use assms in \<open>auto simp: store_getitem_def split: pyval.splits option.splits pyobj.splits\<close>)

lemma store_first_refines:
  assumes "denotes h v j"
  shows "case py_first j of
           Inl err \<Rightarrow> store_first v h = Inl err
         | Inr jx \<Rightarrow> (\<exists>x. store_first v h = Inr x \<and> denotes h x jx \<and>
                          set (addrs h x jx) \<subseteq> set (addrs h v j))"
  using assms
  by (cases j rule: py_first.cases)
     (auto simp: store_first_def split: pyval.splits option.splits pyobj.splits list.splits)

lemma store_setitem_refines_error:
  assumes "denotes h v j" and "py_setitem j k jx = Inl err"
  shows "store_setitem v k x h = Inl err"
  using assms
  by (cases j) (auto simp: store_setitem_def split: pyval.splits option.splits pyobj.splits)

text \<open>A change inside one value of a dict, seen from the dict.\<close>

lemma items_child_replaced:
  assumes "denotes_items h items kvs" and "distinct (addrs_items h items kvs)"
    and "map_of items k = Some v" and "map_of kvs k = Some j"
    and fr: "\<And>b. b < length h \<Longrightarrow> b \<notin> set (addrs h v j) \<Longrightarrow> deref h' b = deref h b"
    and ch: "denotes h' v j'" "distinct (addrs h' v j')"
            "set (addrs h' v j') \<subseteq> set (addrs h v j) \<union> {length h..}"
  shows "denotes_items h' items (AList.update k j' kvs) \<and>
         distinct (addrs_items h' items (AList.update k j' kvs)) \<and>
         set (addrs_items h' items (AList.update k j' kvs)) \<subseteq> set (addrs_items h items kvs) \<union> {length h..}"
  using assms(1-4)
proof (induction kvs arbitrary: items)
  case Nil
  then show ?case by simp
next
  case (Cons p kvs)
  obtain k0 j0 where p: "p = (k0, j0)" by (cases p)
  from Cons.prems(1) p obtain v0 items' where items: "items = (k0, v0) # items'"
    and d0: "denotes h v0 j0" and rest: "denotes_items h items' kvs"
    by (auto split: list.splits)
  from Cons.prems(2) p items have dist0: "distinct (addrs h v0 j0)"
    and distr: "distinct (addrs_items h items' kvs)"
    and disj: "set (addrs h v0 j0) \<inter> set (addrs_items h items' kvs) = {}"
    by auto
  show ?case
  proof (cases "k0 = k")
    case True
    with Cons.prems(3,4) p items have v: "v = v0" and j: "j = j0" by auto
    have "deref h' b = deref h b" if "b \<in> set (addrs_items h items' kvs)" for b
      using that fr addrs_bound(3) [OF rest] disj v j by blast
    from frame(3) [OF rest this]
    have r': "denotes_items h' items' kvs" and ar: "addrs_items h' items' kvs = addrs_items h items' kvs"
      by simp_all
    have "set (addrs h' v j') \<inter> set (addrs_items h items' kvs) = {}"
      using ch(3) disj v j addrs_bound(3) [OF rest] by fastforce
    with True p items v j ch r' ar distr show ?thesis by auto
  next
    case False
    with Cons.prems(3,4) p items have l: "map_of items' k = Some v" "map_of kvs k = Some j"
      by auto
    from Cons.IH [OF rest distr l] have
      ih1: "denotes_items h' items' (AList.update k j' kvs)" and
      ih2: "distinct (addrs_items h' items' (AList.update k j' kvs))" and
      ih3: "set (addrs_items h' items' (AList.update k j' kvs)) \<subseteq> set (addrs_items h items' kvs) \<union> {length h..}"
      by simp_all
    from denotes_items_lookup [OF rest l(2)] l(1)
    have sub: "set (addrs h v j) \<subseteq> set (addrs_items h items' kvs)" by auto
    have "deref h' b = deref h b" if "b \<in> set (addrs h v0 j0)" for b
      using that fr addrs_bound(1) [OF d0] disj sub by blast
    from frame(1) [OF d0 this]
    have d0': "denotes h' v0 j0" and a0: "addrs h' v0 j0 = addrs h v0 j0"
      by simp_all
    have "set (addrs h v0 j0) \<inter> set (addrs_items h' items' (AList.update k j' kvs)) = {}"
      using ih3 disj addrs_bound(1) [OF d0] by fastforce
    with False p items d0' a0 dist0 ih1 ih2 ih3 show ?thesis by auto
  qed
qed

lemma dict_child_replaced:
  assumes t: "tree h (VRef a) (JObj kvs)" and a: "deref h a = Some (ODict items)"
    and l: "map_of items k = Some v" "map_of kvs k = Some j"
    and fr: "\<And>b. b < length h \<Longrightarrow> b \<notin> set (addrs h v j) \<Longrightarrow> deref h' b = deref h b"
    and ch: "denotes h' v j'" "distinct (addrs h' v j')"
            "set (addrs h' v j') \<subseteq> set (addrs h v j) \<union> {length h..}"
  shows "tree h' (VRef a) (JObj (AList.update k j' kvs))"
    and "set (addrs h' (VRef a) (JObj (AList.update k j' kvs)))
           \<subseteq> set (addrs h (VRef a) (JObj kvs)) \<union> {length h..}"
proof -
  from t a have di: "denotes_items h items kvs" and dist: "distinct (addrs_items h items kvs)"
    and nin: "a \<notin> set (addrs_items h items kvs)"
    by (auto simp: tree_def)
  from a have al: "a < length h" by (auto simp: deref_def split: if_splits)
  from denotes_items_lookup [OF di l(2)] l(1)
  have sub: "set (addrs h v j) \<subseteq> set (addrs_items h items kvs)" by auto
  with nin have "a \<notin> set (addrs h v j)" by blast
  from fr [OF al this] a have a': "deref h' a = Some (ODict items)" by simp
  from items_child_replaced [OF di dist l fr ch] have
    1: "denotes_items h' items (AList.update k j' kvs)" and
    2: "distinct (addrs_items h' items (AList.update k j' kvs))" and
    3: "set (addrs_items h' items (AList.update k j' kvs)) \<subseteq> set (addrs_items h items kvs) \<union> {length h..}"
    by simp_all
  from 3 nin al have "a \<notin> set (addrs_items h' items (AList.update k j' kvs))" by auto
  with 1 2 a' show "tree h' (VRef a) (JObj (AList.update k j' kvs))"
    by (simp add: tree_def)
  from 3 a a' show "set (addrs h' (VRef a) (JObj (AList.update k j' kvs)))
           \<subseteq> set (addrs h (VRef a) (JObj kvs)) \<union> {length h..}"
    by auto
qed

lemma list_first_replaced:
  assumes t: "tree h (VRef a) (JArr (j # js))" and a: "deref h a = Some (OList (v # vs))"
    and fr: "\<And>b. b < length h \<Longrightarrow> b \<notin> set (addrs h v j) \<Longrightarrow> deref h' b = deref h b"
    and ch: "denotes h' v j'" "distinct (addrs h' v j')"
            "set (addrs h' v j') \<subseteq> set (addrs h v j) \<union> {length h..}"
  shows "tree h' (VRef a) (JArr (j' # js))"
    and "set (addrs h' (VRef a) (JArr (j' # js))) \<subseteq> set (addrs h (VRef a) (JArr (j # js))) \<union> {length h..}"
proof -
  from t a have d0: "denotes h v j" and rest: "denotes_list h vs js"
    and distr: "distinct (addrs_list h vs js)"
    and disj: "set (addrs h v j) \<inter> set (addrs_list h vs js) = {}"
    and nin: "a \<notin> set (addrs h v j)" "a \<notin> set (addrs_list h vs js)"
    by (auto simp: tree_def)
  from a have al: "a < length h" by (auto simp: deref_def split: if_splits)
  from fr [OF al nin(1)] a have a': "deref h' a = Some (OList (v # vs))" by simp
  have "deref h' b = deref h b" if "b \<in> set (addrs_list h vs js)" for b
    using that fr addrs_bound(2) [OF rest] disj by blast
  from frame(2) [OF rest this]
  have r': "denotes_list h' vs js" and ar: "addrs_list h' vs js = addrs_list h vs js"
    by simp_all
  have i: "set (addrs h' v j') \<inter> set (addrs_list h vs js) = {}"
    using ch(3) disj addrs_bound(2) [OF rest] by fastforce
  have n': "a \<notin> set (addrs h' v j')" using ch(3) nin(1) al by auto
  from a' ch r' ar distr i n' nin show "tree h' (VRef a) (JArr (j' # js))"
    by (auto simp: tree_def)
  from a a' ch(3) ar show "set (addrs h' (VRef a) (JArr (j' # js)))
      \<subseteq> set (addrs h (VRef a) (JArr (j # js))) \<union> {length h..}"
    by auto
qed

lemma items_child_distinct:
  "denotes_items h items kvs \<Longrightarrow> distinct (addrs_items h items kvs) \<Longrightarrow>
   map_of items k = Some v \<Longrightarrow> map_of kvs k = Some j \<Longrightarrow> distinct (addrs h v j)"
proof (induction kvs arbitrary: items)
  case Nil
  then show ?case by simp
next
  case (Cons p kvs)
  obtain k0 j0 where p: "p = (k0, j0)" by (cases p)
  from Cons.prems(1) p obtain v0 items' where items: "items = (k0, v0) # items'"
    and rest: "denotes_items h items' kvs"
    by (auto split: list.splits)
  show ?case
  proof (cases "k0 = k")
    case True
    with Cons.prems p items show ?thesis by auto
  next
    case False
    with Cons.prems p items Cons.IH [OF rest] show ?thesis by auto
  qed
qed

lemma dict_child_tree:
  assumes "tree h (VRef a) (JObj kvs)" and "deref h a = Some (ODict items)"
    and "map_of items k = Some v" and "map_of kvs k = Some j"
  shows "tree h v j" and "set (addrs h v j) \<subseteq> set (addrs h (VRef a) (JObj kvs))"
proof -
  from assms(1,2) have di: "denotes_items h items kvs" and dist: "distinct (addrs_items h items kvs)"
    by (auto simp: tree_def)
  from denotes_items_lookup [OF di assms(4)] assms(3)
  have "denotes h v j" and sub: "set (addrs h v j) \<subseteq> set (addrs_items h items kvs)" by auto
  with items_child_distinct [OF di dist assms(3,4)] show "tree h v j" by (simp add: tree_def)
  from sub assms(2) show "set (addrs h v j) \<subseteq> set (addrs h (VRef a) (JObj kvs))" by auto
qed

lemma set_first_server_url_refines:
  assumes t: "tree h s js"
  shows "case set_first_server_url js url of
           Inl err \<Rightarrow>
             (case store_first s h of
                Inl e \<Rightarrow> e = err
              | Inr first \<Rightarrow> store_setitem first ''url'' (VStr url) h = Inl err)
         | Inr js' \<Rightarrow>
             (\<exists>first h'. store_first s h = Inr first \<and>
                store_setitem first ''url'' (VStr url) h = Inr h' \<and>
                tree h' s js' \<and> length h' = length h \<and>
                set (addrs h' s js') \<subseteq> set (addrs h s js) \<and>
                (\<forall>b. b \<notin> set (addrs h s js) \<longrightarrow> deref h' b = deref h b))"
proof (cases "set_first_server_url js url")
  case (Inl err)
  from t have d: "denotes h s js" by (simp add: tree_def)
  show ?thesis
  proof (cases "py_first js")
    case e: (Inl e)
    with Inl store_first_refines [OF d] show ?thesis
      by (simp add: set_first_server_url_def)
  next
    case (Inr jf)
    with store_first_refines [OF d] obtain first where
      f: "store_first s h = Inr first" and df: "denotes h first jf"
      by auto
    from Inl Inr have "py_setitem jf ''url'' (JStr url) = Inl err"
      by (simp add: set_first_server_url_def split: sum.splits)
    from store_setitem_refines_error [OF df this] f Inl show ?thesis by simp
  qed
next
  case (Inr js')
  from set_first_server_url_Inr [OF Inr] obtain m xs where
    js: "js = JArr (JObj m # xs)" and js': "js' = JArr (JObj (AList.update ''url'' (JStr url) m) # xs)"
    by blast
  from t js obtain a v0 vs b items where
    s: "s = VRef a" and a: "deref h a = Some (OList (v0 # vs))" and
    v0: "v0 = VRef b" and b: "deref h b = Some (ODict items)"
    by (auto simp: tree_def split: pyval.splits option.splits pyobj.splits list.splits)
  let ?h = "h[b := ODict (AList.update ''url'' (VStr url) items)]"
  from t js s a v0 have tb: "tree h (VRef b) (JObj m)"
    by (auto simp: tree_def)
  have bin: "b \<in> set (addrs h (VRef b) (JObj m))" by simp
  from dict_setitem_tree [OF tb b, of "VStr url" "JStr url" "''url''"]
  have tb': "tree ?h (VRef b) (JObj (AList.update ''url'' (JStr url) m))"
    and sb: "set (addrs ?h (VRef b) (JObj (AList.update ''url'' (JStr url) m)))
               \<subseteq> set (addrs h (VRef b) (JObj m))"
    by simp_all
  have fr: "deref ?h c = deref h c" if "c \<notin> set (addrs h (VRef b) (JObj m))" for c
    using that by (auto simp: deref_def)
  from t js s v0 have ta: "tree h (VRef a) (JArr (JObj m # xs))" by simp
  from tb' have ch: "denotes ?h (VRef b) (JObj (AList.update ''url'' (JStr url) m))"
      "distinct (addrs ?h (VRef b) (JObj (AList.update ''url'' (JStr url) m)))"
    by (simp_all add: tree_def)
  from sb have sb': "set (addrs ?h (VRef b) (JObj (AList.update ''url'' (JStr url) m)))
               \<subseteq> set (addrs h (VRef b) (JObj m)) \<union> {length h..}"
    by blast
  from list_first_replaced [OF ta a [unfolded v0] _ ch sb'] fr
  have ta': "tree ?h (VRef a) (JArr (JObj (AList.update ''url'' (JStr url) m) # xs))"
    and sa: "set (addrs ?h (VRef a) (JArr (JObj (AList.update ''url'' (JStr url) m) # xs)))
               \<subseteq> set (addrs h (VRef a) (JArr (JObj m # xs))) \<union> {length h..}"
    by simp_all
  from ta' have dd: "denotes ?h (VRef a) (JArr (JObj (AList.update ''url'' (JStr url) m) # xs))"
    unfolding tree_def by (rule conjunct1)
  have sa': "set (addrs ?h (VRef a) (JArr (JObj (AList.update ''url'' (JStr url) m) # xs)))
               \<subseteq> set (addrs h (VRef a) (JArr (JObj m # xs)))"
  proof
    fix c
    assume c: "c \<in> set (addrs ?h (VRef a) (JArr (JObj (AList.update ''url'' (JStr url) m) # xs)))"
    from addrs_bound(1) [OF dd c] have "c < length h" by (simp only: length_list_update)
    then have "c \<notin> {length h..}" by (simp only: atLeast_iff not_le)
    moreover from sa c have "c \<in> set (addrs h (VRef a) (JArr (JObj m # xs))) \<union> {length h..}"
      by (rule subsetD)
    ultimately show "c \<in> set (addrs h (VRef a) (JArr (JObj m # xs)))" by blast
  qed
  have binr: "set (addrs h (VRef b) (JObj m)) \<subseteq> set (addrs h s js)"
    using js s a v0 by auto
  have 1: "store_first s h = Inr (VRef b)" using s a v0 by (simp add: store_first_def)
  have 2: "store_setitem (VRef b) ''url'' (VStr url) h = Inr ?h" using b by (simp add: store_setitem_def)
  have 3: "\<forall>c. c \<notin> set (addrs h s js) \<longrightarrow> deref ?h c = deref h c"
    using fr binr by blast
  have 4: "length ?h = length h" by simp
  from ta' have ta'': "tree ?h s js'" by (simp only: s js')
  from sa' have sa'': "set (addrs ?h s js') \<subseteq> set (addrs h s js)" by (simp only: s js js')
  from 1 2 3 4 ta'' sa''
  have "\<exists>first h'. store_first s h = Inr first \<and>
                store_setitem first ''url'' (VStr url) h = Inr h' \<and>
                tree h' s js' \<and> length h' = length h \<and>
                set (addrs h' s js') \<subseteq> set (addrs h s js) \<and>
                (\<forall>b. b \<notin> set (addrs h s js) \<longrightarrow> deref h' b = deref h b)"
    by blast
  then show ?thesis by (simp only: Inr sum.case)
qed

lemma update_server_url_refines:
  assumes t: "tree h c d"
  shows "case update_server_url d url of
           Inl err \<Rightarrow> update_server_url_store c url h = Inl err
         | Inr d1 \<Rightarrow> (\<exists>h1. update_server_url_store c url h = Inr h1 \<and> tree h1 c d1)"
proof -
  from t have dc: "denotes h c d" by (simp add: tree_def)
  note si = store_in_refines [OF dc, of "''servers''"]
  show ?thesis
  proof (cases "py_in ''servers'' d")
    case (Inl err)
    with si show ?thesis by (simp add: update_server_url_def update_server_url_store_def)
  next
    case (Inr present)
    show ?thesis
    proof (cases present)
      case False
      with Inr si t show ?thesis by (simp add: update_server_url_def update_server_url_store_def)
    next
      case True
      show ?thesis
      proof (cases "py_getitem d ''servers''")
        case e: (Inl err)
        with store_getitem_refines [OF dc, of "''servers''"] Inr True si show ?thesis
          by (simp add: update_server_url_def update_server_url_store_def)
      next
        case g: (Inr servers)
        from py_getitem_Inr [OF g] obtain kvs where d: "d = JObj kvs"
          and lk: "map_of kvs ''servers'' = Some servers" by blast
        from t d obtain a items where c: "c = VRef a" and a: "deref h a = Some (ODict items)"
          by (auto simp: tree_def split: pyval.splits option.splits pyobj.splits)
        from store_getitem_refines [OF dc, of "''servers''"] g obtain x where
          gx: "store_getitem c ''servers'' h = Inr x"
          by auto
        with c a have lx: "map_of items ''servers'' = Some x"
          by (auto simp: store_getitem_def split: option.splits)
        from t d c have tc: "tree h (VRef a) (JObj kvs)" by simp
        note tx = dict_child_tree [OF tc a lx lk]
        from tx(1) have dx: "denotes h x servers" by (simp add: tree_def)
        note sl = store_len_refines [OF dx]
        show ?thesis
        proof (cases "py_len servers")
          case e: (Inl err)
          with sl Inr True si g gx show ?thesis
            by (simp add: update_server_url_def update_server_url_store_def)
        next
          case n: (Inr n)
          show ?thesis
          proof (cases "n > 0")
            case False
            with n sl Inr True si g gx t show ?thesis
              by (simp add: update_server_url_def update_server_url_store_def)
          next
            case pos: True
            note sf = set_first_server_url_refines [OF tx(1), of url]
            show ?thesis
            proof (cases "set_first_server_url servers url")
              case e: (Inl err)
              with sf have "(case store_first x h of
                               Inl e \<Rightarrow> Inl e
                             | Inr first \<Rightarrow> store_setitem first ''url'' (VStr url) h) = Inl err"
                by (auto split: sum.splits)
              with e n pos sl Inr True si g gx show ?thesis
                by (simp add: update_server_url_def update_server_url_store_def)
            next
              case ok: (Inr servers')
              with sf obtain first h' where
                f: "store_first x h = Inr first" and
                w: "store_setitem first ''url'' (VStr url) h = Inr h'" and
                tx': "tree h' x servers'" and
                len: "length h' = length h" and
                sub: "set (addrs h' x servers') \<subseteq> set (addrs h x servers)" and
                fr: "\<forall>b. b \<notin> set (addrs h x servers) \<longrightarrow> deref h' b = deref h b"
                by auto
              from tx' have ch: "denotes h' x servers'" "distinct (addrs h' x servers')"
                by (simp_all add: tree_def)
              from sub have sub': "set (addrs h' x servers') \<subseteq> set (addrs h x servers) \<union> {length h..}"
                by blast
              from dict_child_replaced(1) [OF tc a lx lk _ ch sub'] fr
              have "tree h' (VRef a) (JObj (AList.update ''servers'' servers' kvs))"
                by blast
              moreover have "update_server_url_store c url h = Inr h'"
                using f w n pos sl Inr True si gx
                by (simp add: update_server_url_store_def)
              moreover have "update_server_url d url = Inr (JObj (AList.update ''servers'' servers' kvs))"
                using ok n pos Inr True g d
                by (simp add: update_server_url_def)
              ultimately show ?thesis using c by simp
            qed
          qed
        qed
      qed
    qed
  qed
qed

lemma tree_append: "tree h v j \<Longrightarrow> tree (h @ xs) v j"
  using frame_append [of h v j xs] by (simp add: tree_def)

lemma build_fresh:
  assumes "build j h = (v, h')"
  shows "\<exists>xs. h' = h @ xs" and "tree h' v j" and "\<And>a. a \<in> set (addrs h' v j) \<Longrightarrow> length h \<le> a"
  using build_tree(1) [OF assms] by (auto simp: tree_def)

text \<open>Assigning a freshly built value to a key of the dict at the root of a tree.\<close>

lemma setitem_built_tree:
  assumes t: "tree h (VRef a) (JObj kvs)"
    and b: "build jx h = (x, h1)"
  shows "\<exists>h2. store_setitem (VRef a) k x h1 = Inr h2 \<and>
           tree h2 (VRef a) (JObj (AList.update k jx kvs)) \<and>
           set (addrs h2 (VRef a) (JObj (AList.update k jx kvs)))
             \<subseteq> set (addrs h (VRef a) (JObj kvs)) \<union> {length h..} \<and>
           (\<forall>c. c < length h \<longrightarrow> c \<noteq> a \<longrightarrow> deref h2 c = deref h c)"
proof -
  from build_fresh [OF b] obtain xs where h1: "h1 = h @ xs" and tx: "tree h1 x jx"
    and fresh: "\<And>c. c \<in> set (addrs h1 x jx) \<Longrightarrow> length h \<le> c"
    by blast
  from t obtain items where a: "deref h a = Some (ODict items)"
    by (auto simp: tree_def split: option.splits pyobj.splits)
  then have al: "a < length h" by (auto simp: deref_def split: if_splits)
  from a al h1 have a1: "deref h1 a = Some (ODict items)" by (simp add: deref_append)
  from t have dt: "denotes h (VRef a) (JObj kvs)" unfolding tree_def by (rule conjunct1)
  from tree_append [OF t, of xs] h1 have t1: "tree h1 (VRef a) (JObj kvs)" by simp
  from frame_append(2) [OF dt, of xs] h1
  have same: "addrs h1 (VRef a) (JObj kvs) = addrs h (VRef a) (JObj kvs)" by simp
  have disj: "set (addrs h1 x jx) \<inter> set (addrs h1 (VRef a) (JObj kvs)) = {}"
  proof -
    have False if c1: "c \<in> set (addrs h1 x jx)" and c2: "c \<in> set (addrs h1 (VRef a) (JObj kvs))" for c
    proof -
      from c2 same have "c \<in> set (addrs h (VRef a) (JObj kvs))" by (simp only:)
      from addrs_bound(1) [OF dt this] fresh [OF c1] show False by simp
    qed
    then show ?thesis by blast
  qed
  from tx have dx: "denotes h1 x jx" "distinct (addrs h1 x jx)" by (simp_all add: tree_def)
  let ?h2 = "h1[a := ODict (AList.update k x items)]"
  from dict_setitem_tree [OF t1 a1 dx disj, of k]
  have t2: "tree ?h2 (VRef a) (JObj (AList.update k jx kvs))"
    and s2: "set (addrs ?h2 (VRef a) (JObj (AList.update k jx kvs)))
               \<subseteq> set (addrs h1 (VRef a) (JObj kvs)) \<union> set (addrs h1 x jx)"
    by simp_all
  have s2': "set (addrs ?h2 (VRef a) (JObj (AList.update k jx kvs)))
               \<subseteq> set (addrs h (VRef a) (JObj kvs)) \<union> {length h..}"
  proof
    fix c assume "c \<in> set (addrs ?h2 (VRef a) (JObj (AList.update k jx kvs)))"
    with s2 have "c \<in> set (addrs h1 (VRef a) (JObj kvs)) \<union> set (addrs h1 x jx)" by (rule subsetD)
    then have "c \<in> set (addrs h (VRef a) (JObj kvs)) \<or> c \<in> set (addrs h1 x jx)"
      by (simp only: same Un_iff)
    then show "c \<in> set (addrs h (VRef a) (JObj kvs)) \<union> {length h..}"
    proof
      assume "c \<in> set (addrs h (VRef a) (JObj kvs))"
      then show ?thesis by (rule UnI1)
    next
      assume "c \<in> set (addrs h1 x jx)"
      from fresh [OF this] have "c \<in> {length h..}" by (simp only: atLeast_iff)
      then show ?thesis by (rule UnI2)
    qed
  qed
  have w: "store_setitem (VRef a) k x h1 = Inr ?h2" using a1 by (simp add: store_setitem_def)
  have fr: "\<forall>c. c < length h \<longrightarrow> c \<noteq> a \<longrightarrow> deref ?h2 c = deref h c"
    using h1 by (auto simp: deref_def nth_append)
  from w t2 s2' fr show ?thesis by (intro exI [of _ ?h2] conjI)
qed

lemma update_security_schemes_refines:
  assumes t: "tree h c d"
  shows "case update_security_schemes d of
           Inl err \<Rightarrow> update_security_schemes_store c h = Inl err
         | Inr d2 \<Rightarrow> (\<exists>h2. update_security_schemes_store c h = Inr h2 \<and> tree h2 c d2)"
proof -
  from t have dc: "denotes h c d" by (simp add: tree_def)
  note si = store_in_refines [OF dc, of "''components''"]
  show ?thesis
  proof (cases "py_in ''components'' d")
    case (Inl err)
    with si show ?thesis by (simp add: update_security_schemes_def update_security_schemes_store_def)
  next
    case (Inr present)
    show ?thesis
    proof (cases present)
      case False
      with Inr si t show ?thesis
        by (simp add: update_security_schemes_def update_security_schemes_store_def)
    next
      case True
      show ?thesis
      proof (cases "py_getitem d ''components''")
        case e: (Inl err)
        with store_getitem_refines [OF dc, of "''components''"] Inr True si show ?thesis
          by (simp add: update_security_schemes_def update_security_schemes_store_def)
      next
        case g: (Inr components)
        from py_getitem_Inr [OF g] obtain kvs where d: "d = JObj kvs"
          and lk: "map_of kvs ''components'' = Some components" by blast
        from t d obtain a items where c: "c = VRef a" and a: "deref h a = Some (ODict items)"
          by (auto simp: tree_def split: pyval.splits option.splits pyobj.splits)
        from store_getitem_refines [OF dc, of "''components''"] g obtain x where
          gx: "store_getitem c ''components'' h = Inr x"
          by auto
        with c a have lx: "map_of items ''components'' = Some x"
          by (auto simp: store_getitem_def split: option.splits)
        from t d c have tc: "tree h (VRef a) (JObj kvs)" by simp
        note tx = dict_child_tree [OF tc a lx lk]
        from tx(1) have dx: "denotes h x components" by (simp add: tree_def)
        note s2 = store_in_refines [OF dx, of "''securitySchemes''"]
        show ?thesis
        proof (cases "py_in ''securitySchemes'' components")
          case e: (Inl err)
          with s2 Inr True si g gx show ?thesis
            by (simp add: update_security_schemes_def update_security_schemes_store_def)
        next
          case p2: (Inr declared)
          show ?thesis
          proof (cases declared)
            case False
            with p2 s2 Inr True si g gx t show ?thesis
              by (simp add: update_security_schemes_def update_security_schemes_store_def)
          next
            case yes: True
            obtain scheme h1 where b: "build bearer_scheme h = (scheme, h1)"
              by (cases "build bearer_scheme h")
            from build_fresh(1) [OF b] obtain xs where h1: "h1 = h @ xs" by blast
            from a have al: "a < length h" by (auto simp: deref_def split: if_splits)
            from a al h1 c lx have g1: "store_getitem c ''components'' h1 = Inr x"
              by (simp add: store_getitem_def deref_append)
            have run: "update_security_schemes_store c h = store_setitem x ''securitySchemes'' scheme h1"
              using Inr True si gx p2 yes s2 b g1
              by (simp add: update_security_schemes_store_def)
            show ?thesis
            proof (cases "py_setitem components ''securitySchemes'' bearer_scheme")
              case e: (Inl err)
              from frame_append(1) [OF dx, of xs] h1 have "denotes h1 x components" by simp
              from store_setitem_refines_error [OF this e] run e Inr True g p2 yes
              show ?thesis by (simp add: update_security_schemes_def)
            next
              case ok: (Inr components')
              from py_setitem_Inr [OF ok] obtain m where comp: "components = JObj m"
                and comp': "components' = JObj (AList.update ''securitySchemes'' bearer_scheme m)"
                by blast
              from tx(1) comp obtain b' where x: "x = VRef b'"
                by (auto simp: tree_def split: pyval.splits)
              from tx(1) comp x have tb: "tree h (VRef b') (JObj m)" by simp
              from setitem_built_tree [OF tb b, of "''securitySchemes''"] obtain h2 where
                w: "store_setitem (VRef b') ''securitySchemes'' scheme h1 = Inr h2" and
                t2: "tree h2 (VRef b') (JObj (AList.update ''securitySchemes'' bearer_scheme m))" and
                sub: "set (addrs h2 (VRef b') (JObj (AList.update ''securitySchemes'' bearer_scheme m)))
                        \<subseteq> set (addrs h (VRef b') (JObj m)) \<union> {length h..}" and
                fr: "\<forall>c. c < length h \<longrightarrow> c \<noteq> b' \<longrightarrow> deref h2 c = deref h c"
                by blast
              have fr': "deref h2 q = deref h q" if "q < length h" "q \<notin> set (addrs h x components)" for q
              proof -
                from that(2) x comp have "q \<noteq> b'" by auto
                with fr that(1) show ?thesis by blast
              qed
              from t2 have ch: "denotes h2 x components'" "distinct (addrs h2 x components')"
                by (simp_all add: tree_def x comp')
              from sub have sub': "set (addrs h2 x components') \<subseteq> set (addrs h x components) \<union> {length h..}"
                by (simp only: x comp comp')
              from dict_child_replaced(1) [OF tc a lx lk fr' ch sub']
              have "tree h2 (VRef a) (JObj (AList.update ''components'' components' kvs))" .
              moreover have "update_security_schemes_store c h = Inr h2"
                using run w x by simp
              moreover have "update_security_schemes d = Inr (JObj (AList.update ''components'' components' kvs))"
                using ok p2 yes Inr True g d
                by (simp add: update_security_schemes_def)
              ultimately show ?thesis using c by simp
            qed
          qed
        qed
      qed
    qed
  qed
qed

lemma store_copy_refines:
  assumes t: "tree h spec d"
  shows "case py_copy d of
           Inl err \<Rightarrow> store_copy spec h = Inl err
         | Inr d' \<Rightarrow> (\<exists>c h1. store_copy spec h = Inr (c, h1) \<and> tree h1 c d')"
proof (cases d)
  case (JArr xs)
  with t obtain a vs where s: "spec = VRef a" and a: "deref h a = Some (OList vs)"
    and dl: "denotes_list h vs xs" and dist: "distinct (addrs_list h vs xs)"
    by (auto simp: tree_def split: pyval.splits option.splits pyobj.splits)
  from frame_append_list [OF dl, of "[OList vs]"] addrs_bound(2) [OF dl] dist
  have "tree (h @ [OList vs]) (VRef (length h)) (JArr xs)"
    by (auto simp: tree_def deref_def)
  with JArr s a show ?thesis by (simp add: store_copy_def alloc_def)
next
  case (JObj kvs)
  with t obtain a items where s: "spec = VRef a" and a: "deref h a = Some (ODict items)"
    and dl: "denotes_items h items kvs" and dist: "distinct (addrs_items h items kvs)"
    by (auto simp: tree_def split: pyval.splits option.splits pyobj.splits)
  from frame_append_items [OF dl, of "[ODict items]"] addrs_bound(3) [OF dl] dist
  have "tree (h @ [ODict items]) (VRef (length h)) (JObj kvs)"
    by (auto simp: tree_def deref_def)
  with JObj s a show ?thesis by (simp add: store_copy_def alloc_def)
qed (use t in \<open>auto simp: tree_def store_copy_def\<close>)

theorem customize_mi_store_refines:
  assumes t: "tree h spec d"
  shows "case customize_openapi_spec_for_workspace_mi d url of
           Inl err \<Rightarrow> customize_openapi_spec_for_workspace_mi_store spec url h = Inl err
         | Inr d' \<Rightarrow> (\<exists>c h'. customize_openapi_spec_for_workspace_mi_store spec url h = Inr (c, h') \<and>
                          tree h' c d')"
proof (cases "py_copy d")
  case (Inl err)
  with store_copy_refines [OF t] show ?thesis
    by (simp add: customize_openapi_spec_for_workspace_mi_def
          customize_openapi_spec_for_workspace_mi_store_def)
next
  case (Inr d0)
  with store_copy_refines [OF t] obtain c h1 where
    cp: "store_copy spec h = Inr (c, h1)" and t1: "tree h1 c d0" by auto
  from update_server_url_refines [OF t1, of url] cp Inr show ?thesis
    by (auto simp: customize_openapi_spec_for_workspace_mi_def
          customize_openapi_spec_for_workspace_mi_store_def split: sum.splits)
qed

theorem customize_pat_store_refines:
  assumes t: "tree h spec d"
  shows "case customize_openapi_spec_for_workspace_pat d url of
           Inl err \<Rightarrow> customize_openapi_spec_for_workspace_pat_store spec url h = Inl err
         | Inr d' \<Rightarrow> (\<exists>c h'. customize_openapi_spec_for_workspace_pat_store spec url h = Inr (c, h') \<and>
                          tree h' c d')"
proof (cases "py_copy d")
  case (Inl err)
  with store_copy_refines [OF t] show ?thesis
    by (simp add: customize_openapi_spec_for_workspace_pat_def
          customize_openapi_spec_for_workspace_pat_store_def)
next
  case (Inr d0)
  with store_copy_refines [OF t] obtain c h1 where
    cp: "store_copy spec h = Inr (c, h1)" and t1: "tree h1 c d0" by auto
  show ?thesis
  proof (cases "update_server_url d0 url")
    case e: (Inl err)
    with update_server_url_refines [OF t1, of url] cp Inr show ?thesis
      by (simp add: customize_openapi_spec_for_workspace_pat_def
            customize_openapi_spec_for_workspace_pat_store_def)
  next
    case a: (Inr d1)
    with update_server_url_refines [OF t1, of url] obtain h2 where
      u: "update_server_url_store c url h1 = Inr h2" and t2: "tree h2 c d1" by auto
    show ?thesis
    proof (cases "update_security_schemes d1")
      case e: (Inl err)
      with update_security_schemes_refines [OF t2] cp Inr a u show ?thesis
        by (simp add: customize_openapi_spec_for_workspace_pat_def
              customize_openapi_spec_for_workspace_pat_store_def)
    next
      case b: (Inr d2)
      with update_security_schemes_refines [OF t2] obtain h3 where
        v: "update_security_schemes_store c h2 = Inr h3" and t3: "tree h3 c d2" by auto
      obtain requirement h4 where r: "build bearer_requirement h3 = (requirement, h4)"
        by (cases "build bearer_requirement h3")
      have run: "customize_openapi_spec_for_workspace_pat_store spec url h =
                   (case store_setitem c ''security'' requirement h4 of
                      Inl err \<Rightarrow> Inl err | Inr h5 \<Rightarrow> Inr (c, h5))"
        using cp u v r by (simp add: customize_openapi_spec_for_workspace_pat_store_def)
      have pure: "customize_openapi_spec_for_workspace_pat d url =
                    py_setitem d2 ''security'' bearer_requirement"
        using Inr a b by (simp add: customize_openapi_spec_for_workspace_pat_def)
      show ?thesis
      proof (cases "py_setitem d2 ''security'' bearer_requirement")
        case e: (Inl err)
        from build_fresh(1) [OF r] obtain xs where h4: "h4 = h3 @ xs" by blast
        from t3 have "denotes h3 c d2" by (simp add: tree_def)
        from frame_append(1) [OF this, of xs] h4 have "denotes h4 c d2" by simp
        from store_setitem_refines_error [OF this e] run pure e show ?thesis by simp
      next
        case ok: (Inr d3)
        from py_setitem_Inr [OF ok] obtain kvs where d2: "d2 = JObj kvs"
          and d3: "d3 = JObj (AList.update ''security'' bearer_requirement kvs)" by blast
        from t3 d2 obtain a' where c: "c = VRef a'"
          by (auto simp: tree_def split: pyval.splits)
        from t3 d2 c have "tree h3 (VRef a') (JObj kvs)" by simp
        from setitem_built_tree [OF this r, of "''security''"] obtain h5 where
          "store_setitem (VRef a') ''security'' requirement h4 = Inr h5"
          "tree h5 (VRef a') (JObj (AList.update ''security'' bearer_requirement kvs))"
          by blast
        with run pure ok c d3 show ?thesis by simp
      qed
    qed
  qed
qed


text \<open>A value denotes at most one document, so "denote the same document" is an
  equivalence on the values that denote one.\<close>

lemma denotes_ref_list:
  "denotes h (VRef a) j \<Longrightarrow> deref h a = Some (OList vs) \<Longrightarrow> \<exists>xs. j = JArr xs \<and> denotes_list h vs xs"
  by (cases j) simp_all

lemma denotes_ref_dict:
  "denotes h (VRef a) j \<Longrightarrow> deref h a = Some (ODict items) \<Longrightarrow> \<exists>kvs. j = JObj kvs \<and> denotes_items h items kvs"
  by (cases j) simp_all

lemma denotes_unique:
  "denotes h v j \<Longrightarrow> denotes h v j' \<Longrightarrow> j = j'"
  "denotes_list h vs js \<Longrightarrow> denotes_list h vs js' \<Longrightarrow> js = js'"
  "denotes_items h items kvs \<Longrightarrow> denotes_items h items kvs' \<Longrightarrow> kvs = kvs'"
proof (induction h v j and h vs js and h items kvs arbitrary: j' and js' and kvs'
       rule: denotes_denotes_list_denotes_items.induct)
  case (1 h v)
  then show ?case by (cases j') simp_all
next
  case (2 h v b)
  then show ?case by (cases j') simp_all
next
  case (3 h v i)
  then show ?case by (cases j') simp_all
next
  case (4 h v m e)
  then show ?case by (cases j') simp_all
next
  case (5 h v s)
  then show ?case by (cases j') simp_all
next
  case (6 h v xs)
  from "6.prems"(1) obtain a vs where v: "v = VRef a" and a: "deref h a = Some (OList vs)"
    and d: "denotes_list h vs xs"
    by (simp split: pyval.splits option.splits pyobj.splits)
  from "6.prems"(2) v a obtain xs' where j': "j' = JArr xs'" and d': "denotes_list h vs xs'"
    using denotes_ref_list by blast
  from "6.IH" [OF v a refl d d'] j' show ?case by simp
next
  case (7 h v kvs)
  from "7.prems"(1) obtain a items where v: "v = VRef a" and a: "deref h a = Some (ODict items)"
    and d: "denotes_items h items kvs"
    by (simp split: pyval.splits option.splits pyobj.splits)
  from "7.prems"(2) v a obtain kvs' where j': "j' = JObj kvs'" and d': "denotes_items h items kvs'"
    using denotes_ref_dict by blast
  from "7.IH" [OF v a refl d d'] j' show ?case by simp
next
  case (8 h vs)
  then show ?case by (cases js') (simp_all split: list.splits)
next
  case (9 h vs x xs)
  from "9.prems"(1) obtain v vs' where vs: "vs = v # vs'" and d1: "denotes h v x"
    and d2: "denotes_list h vs' xs"
    by (simp split: list.splits)
  from "9.prems"(2) vs obtain x' xs' where js': "js' = x' # xs'" and e1: "denotes h v x'"
    and e2: "denotes_list h vs' xs'"
    by (cases js') simp_all
  from "9.IH"(1) [OF vs d1 e1] "9.IH"(2) [OF vs d2 e2] js' show ?case by simp
next
  case (10 h items)
  then show ?case by (cases kvs') auto
next
  case (11 h items k x kvs)
  from "11.prems"(1) obtain v items' where it: "items = (k, v) # items'" and d1: "denotes h v x"
    and d2: "denotes_items h items' kvs"
    by (simp split: list.splits prod.splits)
  from "11.prems"(2) it obtain x' kvs0 where kv: "kvs' = (k, x') # kvs0" and e1: "denotes h v x'"
    and e2: "denotes_items h items' kvs0"
    by (cases kvs') auto
  from "11.IH"(1) [OF it refl d1 e1] "11.IH"(2) [OF it refl d2 e2] kv show ?case by simp
qed

text \<open>
  Claim C9. A document is built in a store and customized; when that succeeds, the
  returned object is customized again with the same workspace URL. The second call
  succeeds too, and what it returns denotes the same document as what the first call
  returned: the two are value-equal. This holds for both scripts.
\<close>

theorem customization_is_idempotent:
  assumes "build d h0 = (spec, h)"
  shows "(customize_openapi_spec_for_workspace_mi_store spec url h = Inr (c1, h1) \<longrightarrow>
            (\<exists>c2 h2 j. customize_openapi_spec_for_workspace_mi_store c1 url h1 = Inr (c2, h2) \<and>
                        denotes h1 c1 j \<and> denotes h2 c2 j)) \<and>
         (customize_openapi_spec_for_workspace_pat_store spec url h = Inr (c1', h1') \<longrightarrow>
            (\<exists>c2 h2 j. customize_openapi_spec_for_workspace_pat_store c1' url h1' = Inr (c2, h2) \<and>
                        denotes h1' c1' j \<and> denotes h2 c2 j))"
proof (intro conjI impI)
  from build_is_tree [OF assms] have t: "tree h spec d" .
  {
    assume run: "customize_openapi_spec_for_workspace_mi_store spec url h = Inr (c1, h1)"
    with customize_mi_store_refines [OF t, of url] obtain j where
      p: "customize_openapi_spec_for_workspace_mi d url = Inr j" and t1: "tree h1 c1 j"
      by (auto split: sum.splits)
    from customize_mi_store_refines [OF t1, of url] customize_mi_idem [OF p] obtain c2 h2 where
      "customize_openapi_spec_for_workspace_mi_store c1 url h1 = Inr (c2, h2)" "tree h2 c2 j"
      by auto
    with t1 show "\<exists>c2 h2 j. customize_openapi_spec_for_workspace_mi_store c1 url h1 = Inr (c2, h2) \<and>
                        denotes h1 c1 j \<and> denotes h2 c2 j"
      unfolding tree_def by blast
  }
  {
    assume run: "customize_openapi_spec_for_workspace_pat_store spec url h = Inr (c1', h1')"
    with customize_pat_store_refines [OF t, of url] obtain j where
      p: "customize_openapi_spec_for_workspace_pat d url = Inr j" and t1: "tree h1' c1' j"
      by (auto split: sum.splits)
    from customize_pat_store_refines [OF t1, of url] customize_pat_idem [OF p] obtain c2 h2 where
      "customize_openapi_spec_for_workspace_pat_store c1' url h1' = Inr (c2, h2)" "tree h2 c2 j"
      by auto
    with t1 show "\<exists>c2 h2 j. customize_openapi_spec_for_workspace_pat_store c1' url h1' = Inr (c2, h2) \<and>
                        denotes h1' c1' j \<and> denotes h2 c2 j"
      unfolding tree_def by blast
  }
qed

text \<open>Both customizers on the sample document.\<close>

theorem customization_is_idempotent_witness:
  "(case build sample_spec [] of
      (spec, h) \<Rightarrow>
        (case customize_openapi_spec_for_workspace_mi_store spec ''https://adb-1.azuredatabricks.net'' h of
           Inl err \<Rightarrow> False
         | Inr (c1, h1) \<Rightarrow>
             (\<exists>c2 h2 j. customize_openapi_spec_for_workspace_mi_store c1
                           ''https://adb-1.azuredatabricks.net'' h1 = Inr (c2, h2) \<and>
                         denotes h1 c1 j \<and> denotes h2 c2 j)) \<and>
        (case customize_openapi_spec_for_workspace_pat_store spec ''https://adb-1.azuredatabricks.net'' h of
           Inl err \<Rightarrow> False
         | Inr (c1, h1) \<Rightarrow>
             (\<exists>c2 h2 j. customize_openapi_spec_for_workspace_pat_store c1
                           ''https://adb-1.azuredatabricks.net'' h1 = Inr (c2, h2) \<and>
                         denotes h1 c1 j \<and> denotes h2 c2 j)))"
proof -
  let ?url = "''https://adb-1.azuredatabricks.net''"
  obtain spec h where b: "build sample_spec [] = (spec, h)"
    by (cases "build sample_spec []")
  from build_is_tree [OF b] have t: "tree h spec sample_spec" .
  have "\<exists>j. customize_openapi_spec_for_workspace_mi sample_spec ?url = Inr j"
    by (simp add: sample_spec_def customize_defs)
  with customize_mi_store_refines [OF t, of ?url] obtain c1 h1 where
    r: "customize_openapi_spec_for_workspace_mi_store spec ?url h = Inr (c1, h1)"
    by auto
  have "\<exists>j. customize_openapi_spec_for_workspace_pat sample_spec ?url = Inr j"
    by (simp add: sample_spec_def customize_defs)
  with customize_pat_store_refines [OF t, of ?url] obtain c1' h1' where
    r': "customize_openapi_spec_for_workspace_pat_store spec ?url h = Inr (c1', h1')"
    by auto
  from customization_is_idempotent [OF b, of ?url c1 h1 c1' h1'] r r' b
  show ?thesis by simp
qed

text \<open>
  Claim C10. Whenever the PAT customizer returns, the document it returns has the one
  requirement naming \<open>bearerAuth\<close> as its top-level \<open>security\<close>. When the
  condition of lines 228 to 231 is false for the input (no \<open>components\<close>, or no
  \<open>securitySchemes\<close> in it), the \<open>components\<close> entry of the result is that of
  the input and the result declares no scheme named \<open>bearerAuth\<close>.
\<close>

theorem pat_customization_sets_bearer_requirement:
  assumes "build d h0 = (spec, h)"
    and "customize_openapi_spec_for_workspace_pat_store spec url h = Inr (c, h')"
  shows "\<exists>kvs kvs'. d = JObj kvs \<and> denotes h' c (JObj kvs') \<and>
           map_of kvs' ''security'' = Some (JArr [JObj [(''bearerAuth'', JArr [])]]) \<and>
           (\<not> has_security_schemes d \<longrightarrow>
              map_of kvs' ''components'' = map_of kvs ''components'' \<and>
              \<not> scheme_declared ''bearerAuth'' (JObj kvs'))"
proof -
  from build_is_tree [OF assms(1)] have t: "tree h spec d" .
  with customize_pat_store_refines [OF t, of url] assms(2) obtain d' where
    p: "customize_openapi_spec_for_workspace_pat d url = Inr d'" and t': "tree h' c d'"
    by (auto split: sum.splits)
  from pat_customization_security [OF p] t' show ?thesis
    unfolding tree_def by blast
qed

text \<open>The PAT customizer on a document whose \<open>components\<close> hold no
  \<open>securitySchemes\<close>.\<close>

theorem pat_customization_sets_bearer_requirement_witness:
  "\<not> has_security_schemes sample_spec_without_schemes \<and>
   (case build sample_spec_without_schemes [] of
      (spec, h) \<Rightarrow>
        (case customize_openapi_spec_for_workspace_pat_store spec ''https://adb-1.azuredatabricks.net'' h of
           Inl err \<Rightarrow> False
         | Inr (c, h') \<Rightarrow>
             (\<exists>kvs'. denotes h' c (JObj kvs') \<and>
                map_of kvs' ''security'' = Some (JArr [JObj [(''bearerAuth'', JArr [])]]) \<and>
                map_of kvs' ''components'' = Some (JObj [(''schemas'', JObj [])]) \<and>
                \<not> scheme_declared ''bearerAuth'' (JObj kvs'))))"
proof -
  let ?url = "''https://adb-1.azuredatabricks.net''"
  obtain spec h where b: "build sample_spec_without_schemes [] = (spec, h)"
    by (cases "build sample_spec_without_schemes []")
  from build_is_tree [OF b] have t: "tree h spec sample_spec_without_schemes" .
  have n: "\<not> has_security_schemes sample_spec_without_schemes"
    by (simp add: sample_spec_without_schemes_def has_security_schemes_def)
  have "\<exists>j. customize_openapi_spec_for_workspace_pat sample_spec_without_schemes ?url = Inr j"
    by (simp add: sample_spec_without_schemes_def customize_defs)
  with customize_pat_store_refines [OF t, of ?url] obtain c h' where
    r: "customize_openapi_spec_for_workspace_pat_store spec ?url h = Inr (c, h')"
    by auto
  from pat_customization_sets_bearer_requirement [OF b r] n obtain kvs kvs' where
    "sample_spec_without_schemes = JObj kvs" "denotes h' c (JObj kvs')"
    "map_of kvs' ''security'' = Some (JArr [JObj [(''bearerAuth'', JArr [])]])"
    "map_of kvs' ''components'' = map_of kvs ''components''"
    "\<not> scheme_declared ''bearerAuth'' (JObj kvs')"
    by blast
  moreover from this(1) have "map_of kvs ''components'' = Some (JObj [(''schemas'', JObj [])])"
    by (auto simp: sample_spec_without_schemes_def)
  ultimately show ?thesis using n b r by auto
qed

text \<open>
  Claim C3 fails on the code. The sample document is built in an empty store and each
  customizer is run on it. Before the call the caller's value denotes the sample
  document; after the call it does not: it denotes a document with the workspace URL in
  \<open>servers[0].url\<close> and, for the PAT script, with the bearer scheme under
  \<open>components.securitySchemes\<close>.
\<close>

theorem customization_mutates_its_input:
  "(case build sample_spec [] of
      (spec, h0) \<Rightarrow>
        denotes h0 spec sample_spec \<and>
        (case customize_openapi_spec_for_workspace_mi_store spec ''https://adb-1.azuredatabricks.net'' h0 of
           Inl err \<Rightarrow> False
         | Inr (customized, h1) \<Rightarrow>
             \<not> denotes h1 spec sample_spec \<and>
             denotes h1 spec
               (JObj [(''openapi'', JStr ''3.0.1''),
                      (''servers'', JArr [JObj [(''url'', JStr ''https://adb-1.azuredatabricks.net'')]]),
                      (''components'', JObj [(''securitySchemes'',
                          JObj [(''oauth2'', JObj [(''type'', JStr ''oauth2'')])])]),
                      (''security'', JArr [JObj [(''oauth2'', JArr [])]])])) \<and>
        (case customize_openapi_spec_for_workspace_pat_store spec ''https://adb-1.azuredatabricks.net'' h0 of
           Inl err \<Rightarrow> False
         | Inr (customized, h1) \<Rightarrow>
             \<not> denotes h1 spec sample_spec \<and>
             denotes h1 spec
               (JObj [(''openapi'', JStr ''3.0.1''),
                      (''servers'', JArr [JObj [(''url'', JStr ''https://adb-1.azuredatabricks.net'')]]),
                      (''components'', JObj [(''securitySchemes'',
                          JObj [(''bearerAuth'', JObj [(''type'', JStr ''apiKey''),
                             (''name'', JStr ''Authorization''), (''in'', JStr ''header''),
                             (''description'', JStr ''Databricks PAT: Bearer <token>'')])])]),
                      (''security'', JArr [JObj [(''oauth2'', JArr [])]])])))"
  by (simp add: sample_spec_def store_defs)

end
